theory Spec2Isabelle
  imports Main "HOL-Library.Product_Lexorder" "HOL-Library.Sublist"
begin

section \<open>Python strings and the built-ins the generator calls\<close>

text \<open>
  The generator (\<^verbatim>\<open>android_auto_script_generator.py\<close>) is Python 3. A Python
  \<^verbatim>\<open>str\<close> is modelled as a \<^typ>\<open>string\<close>: one \<^typ>\<open>char\<close> per code point, which covers
  the code points 0 to 255. The built-ins below are CPython's on that range:
  \<^verbatim>\<open>str.isspace\<close> (also the regular expression class \<^verbatim>\<open>\s\<close> on a str pattern),
  \<^verbatim>\<open>str.isdigit\<close>, \<^verbatim>\<open>str.lower\<close>, \<^verbatim>\<open>str.count\<close>, \<^verbatim>\<open>str.split(sep)[-1]\<close>,
  \<^verbatim>\<open>str.strip\<close>, the operator \<^verbatim>\<open>in\<close> on strings, and \<^verbatim>\<open>re.sub\<close> for a pattern that is
  one character class, with or without \<^verbatim>\<open>+\<close>.
\<close>

definition py_isspace :: "char \<Rightarrow> bool" where
  "py_isspace c =
     (let n = (of_char c :: nat)
      in (9 \<le> n \<and> n \<le> 13) \<or> (28 \<le> n \<and> n \<le> 32) \<or> n = 133 \<or> n = 160)"

definition py_isdigit :: "char \<Rightarrow> bool" where
  "py_isdigit c =
     (let n = (of_char c :: nat)
      in (48 \<le> n \<and> n \<le> 57) \<or> n = 178 \<or> n = 179 \<or> n = 185)"

text \<open>The decimal digits \<^verbatim>\<open>0\<close> to \<^verbatim>\<open>9\<close>.\<close>

definition is_ascii_digit :: "char \<Rightarrow> bool" where
  "is_ascii_digit c = (let n = (of_char c :: nat) in 48 \<le> n \<and> n \<le> 57)"

definition py_lower_char :: "char \<Rightarrow> char" where
  "py_lower_char c =
     (let n = (of_char c :: nat)
      in if (65 \<le> n \<and> n \<le> 90) \<or> (192 \<le> n \<and> n \<le> 222 \<and> n \<noteq> 215)
         then char_of (n + 32) else c)"

definition py_lower :: "string \<Rightarrow> string" where
  "py_lower s = map py_lower_char s"

definition py_count :: "char \<Rightarrow> string \<Rightarrow> nat" where
  "py_count c s = length (filter (\<lambda>x. x = c) s)"

text \<open>\<^verbatim>\<open>s.split(sep)[-1]\<close> for a one-character separator: what follows the last separator.\<close>

definition py_split_last :: "char \<Rightarrow> string \<Rightarrow> string" where
  "py_split_last sep s = rev (takeWhile (\<lambda>x. x \<noteq> sep) (rev s))"

text \<open>\<^verbatim>\<open>s.strip(chars)\<close> and \<^verbatim>\<open>s.strip()\<close>: the characters to remove are given as a predicate.\<close>

definition py_strip :: "(char \<Rightarrow> bool) \<Rightarrow> string \<Rightarrow> string" where
  "py_strip P s = rev (dropWhile P (rev (dropWhile P s)))"

fun py_startswith :: "string \<Rightarrow> string \<Rightarrow> bool" where
  "py_startswith [] s = True"
| "py_startswith (p # ps) [] = False"
| "py_startswith (p # ps) (c # cs) = (p = c \<and> py_startswith ps cs)"

text \<open>\<^verbatim>\<open>sub in s\<close>.\<close>

fun py_in :: "string \<Rightarrow> string \<Rightarrow> bool" where
  "py_in sub [] = (sub = [])"
| "py_in sub (c # cs) = (py_startswith sub (c # cs) \<or> py_in sub cs)"

text \<open>
  \<^verbatim>\<open>re.sub(r'[class]+', repl, s)\<close>: every maximal run of characters of the class is
  replaced by \<^verbatim>\<open>repl\<close>.
\<close>

function re_sub_runs :: "(char \<Rightarrow> bool) \<Rightarrow> string \<Rightarrow> string \<Rightarrow> string" where
  "re_sub_runs P repl [] = []"
| "re_sub_runs P repl (c # cs) =
     (if P c then repl @ re_sub_runs P repl (dropWhile P cs)
      else c # re_sub_runs P repl cs)"
  by pat_completeness auto
termination
  by (relation "measure (\<lambda>(P, repl, s). length s)")
     (auto simp: length_dropWhile_le less_Suc_eq_le)

text \<open>The class \<^verbatim>\<open>[a-z0-9_]\<close>; \<^verbatim>\<open>re.sub(r'[^a-z0-9_]', '', s)\<close> keeps exactly its characters.\<close>

definition is_ident_char :: "char \<Rightarrow> bool" where
  "is_ident_char c =
     (let n = (of_char c :: nat)
      in (97 \<le> n \<and> n \<le> 122) \<or> (48 \<le> n \<and> n \<le> 57) \<or> n = 95)"

definition is_underscore :: "char \<Rightarrow> bool" where
  "is_underscore c = (c = CHR ''_'')"

section \<open>Screen names: \<^verbatim>\<open>normalize_to_snake_case\<close>\<close>

text \<open>
  Lines 148 to 155 of the generator: the text between the first emptiness test and the
  second.
  \<^verbatim>\<open>
    if '.' in text and text.count('.') > 1:
        text = text.split('.')[-1]
    text = text.lower()
    text = re.sub(r'\s+', '_', text)
    text = re.sub(r'[^a-z0-9_]', '', text)
    text = re.sub(r'_+', '_', text)
    text = text.strip('_')
  \<close>
\<close>

definition snake_steps :: "string \<Rightarrow> string" where
  "snake_steps text0 =
     (let text1 = (if CHR ''.'' \<in> set text0 \<and> py_count (CHR ''.'') text0 > 1
                   then py_split_last (CHR ''.'') text0 else text0);
          text2 = py_lower text1;
          text3 = re_sub_runs py_isspace ''_'' text2;
          text4 = filter is_ident_char text3;
          text5 = re_sub_runs is_underscore ''_'' text4
      in py_strip is_underscore text5)"

text \<open>\<^verbatim>\<open>normalize_to_snake_case\<close>, lines 144 to 160.\<close>

definition normalize_to_snake_case :: "string \<Rightarrow> string" where
  "normalize_to_snake_case text0 =
     (if text0 = [] then ''unnamed_screen''
      else let text6 = snake_steps text0
           in if text6 = [] then ''unnamed_screen''
              else if py_isdigit (hd text6) then ''screen_'' @ text6
              else text6)"

text \<open>
  The helper block that \<^verbatim>\<open>generate_screen_recognition_helpers_string\<close> returns holds a
  second \<^verbatim>\<open>normalize_to_snake_case\<close>, as source text (lines 387 to 404). The text is an
  ordinary (not raw) Python string; \<^verbatim>\<open>\s\<close> is no escape sequence of Python, so the
  emitted pattern is \<^verbatim>\<open>r'\s+'\<close> again. The function below is that emitted text, read as
  Python, statement by statement.
  \<^verbatim>\<open>
    def normalize_to_snake_case(text):
        if not text:
            return "unnamed_screen"
        if '.' in text and text.count('.') > 1:
            text = text.split('.')[-1]
        text = text.lower()
        text = re.sub(r'\s+', '_', text)
        text = re.sub(r'[^a-z0-9_]', '', text)
        text = re.sub(r'_+', '_', text)
        text = text.strip('_')
        if not text:
            return "unnamed_screen"
        if text[0].isdigit():
            return f"screen_{text}"
        return text
  \<close>
\<close>

definition helper_normalize_to_snake_case :: "string \<Rightarrow> string" where
  "helper_normalize_to_snake_case text0 =
     (if text0 = [] then ''unnamed_screen''
      else
        let text1 = (if CHR ''.'' \<in> set text0 \<and> py_count (CHR ''.'') text0 > 1
                     then py_split_last (CHR ''.'') text0 else text0);
            text2 = py_lower text1;
            text3 = re_sub_runs py_isspace ''_'' text2;
            text4 = filter is_ident_char text3;
            text5 = re_sub_runs is_underscore ''_'' text4;
            text6 = py_strip is_underscore text5
        in if text6 = [] then ''unnamed_screen''
           else if py_isdigit (hd text6) then ''screen_'' @ text6
           else text6)"

section \<open>The catalog's entries\<close>

text \<open>
  One entry of the catalog is the dictionary \<^verbatim>\<open>element_data\<close> of
  \<^verbatim>\<open>get_screen_elements\<close> (lines 100 to 113). A dictionary whose order matters is an
  association list: \<^verbatim>\<open>bounds\<close> maps \<^verbatim>\<open>left\<close>, \<^verbatim>\<open>top\<close>, \<^verbatim>\<open>right\<close>, \<^verbatim>\<open>bottom\<close> to
  integers, a selector maps a criterion (\<^verbatim>\<open>resourceId\<close>, \<^verbatim>\<open>text\<close>, \<^verbatim>\<open>description\<close>,
  \<^verbatim>\<open>className\<close>) to its value, in insertion order.
\<close>

type_synonym bounds_dict = "(string \<times> int) list"

type_synonym selector_dict = "(string \<times> string) list"

record element =
  el_text :: string
  resource_id :: string
  class_name :: string
  description :: string
  bounds :: bounds_dict
  clickable :: bool
  long_clickable :: bool
  scrollable :: bool
  checkable :: bool
  checked :: bool
  editable :: bool
  selector :: selector_dict

section \<open>The transport\<close>

text \<open>
  \<^verbatim>\<open>device.app_current()\<close> either raises or returns a dictionary, which may have an
  \<^verbatim>\<open>activity\<close>.
\<close>

datatype app_current_result = AppCurrentRaises | AppCurrent "string option"

text \<open>
  What \<^verbatim>\<open>elem.info\<close> returns when it returns a non-empty dictionary: the attribute
  map of one raw element. The attributes have the types the transport gives them;
  \<open>None\<close> is a key that the map does not have, which is the case \<^verbatim>\<open>info.get\<close> and its
  defaults are written for.
\<close>

record info =
  info_text :: "string option"
  info_resourceId :: "string option"
  info_className :: "string option"
  info_contentDescription :: "string option"
  info_bounds :: "bounds_dict option"
  info_clickable :: "bool option"
  info_longClickable :: "bool option"
  info_scrollable :: "bool option"
  info_checkable :: "bool option"
  info_checked :: "bool option"
  info_editable :: "bool option"

text \<open>
  \<^verbatim>\<open>info\<close> is a property of the element handle that asks the device each time it is
  read. One read raises, returns \<^verbatim>\<open>None\<close>, returns the empty dictionary, or returns an
  attribute map. A raw element is the sequence of its reads: \<open>elem k\<close> is what the read
  number \<open>k\<close> gives (\<open>k = 0\<close> is the first).
\<close>

datatype info_read = ReadRaises | ReadNone | ReadEmpty | ReadInfo info

type_synonym raw_elem = "nat \<Rightarrow> info_read"

text \<open>A query \<^verbatim>\<open>device(...)\<close>, iterated by \<^verbatim>\<open>extend\<close>, raises or yields raw elements.\<close>

datatype query_result = QueryRaises | Found "raw_elem list"

record device =
  by_clickable :: query_result
  by_longClickable :: query_result
  by_scrollable :: query_result
  by_checkable :: query_result
  by_editable :: query_result
  by_className :: "string \<Rightarrow> query_result"
  app_current :: app_current_result

section \<open>The element catalog builder: \<^verbatim>\<open>get_screen_elements\<close>\<close>

definition EDITABLE_CLASS_NAMES :: "string list" where
  "EDITABLE_CLASS_NAMES =
     [''android.widget.EditText'', ''android.widget.AutoCompleteTextView'',
      ''android.webkit.WebView'']"

text \<open>
  Lines 53 to 65: the queries run in order and their results are concatenated; the
  first query that raises ends the gathering (\<open>None\<close>).
\<close>

fun gather :: "query_result list \<Rightarrow> raw_elem list option" where
  "gather [] = Some []"
| "gather (QueryRaises # qs) = None"
| "gather (Found elems # qs) =
     (case gather qs of None \<Rightarrow> None | Some others \<Rightarrow> Some (elems @ others))"

definition elements_to_check :: "device \<Rightarrow> raw_elem list option" where
  "elements_to_check d =
     gather ([by_clickable d, by_longClickable d, by_scrollable d, by_checkable d,
              by_editable d] @ map (by_className d) EDITABLE_CLASS_NAMES)"

text \<open>Lines 75 to 82. \<^verbatim>\<open>tuple(info.get('bounds', {}).values())\<close> is the list of the values.\<close>

type_synonym signature =
  "string option \<times> string option \<times> string option \<times> int list \<times> string option"

definition signature_of :: "info \<Rightarrow> signature" where
  "signature_of i =
     (info_resourceId i, info_text i, info_className i,
      map snd (case info_bounds i of None \<Rightarrow> [] | Some b \<Rightarrow> b),
      info_contentDescription i)"

text \<open>\<^verbatim>\<open>info.get(flag)\<close> and \<^verbatim>\<open>info.get(flag, False)\<close> read as a condition.\<close>

definition flag :: "bool option \<Rightarrow> bool" where
  "flag v = (case v of None \<Rightarrow> False | Some b \<Rightarrow> b)"

text \<open>\<^verbatim>\<open>info.get(key, '')\<close>.\<close>

definition str_or_empty :: "string option \<Rightarrow> string" where
  "str_or_empty v = (case v of None \<Rightarrow> [] | Some t \<Rightarrow> t)"

text \<open>Lines 89 to 91.\<close>

definition is_editable_of :: "info \<Rightarrow> bool" where
  "is_editable_of i =
     (let is_editable = flag (info_editable i)
      in if \<not> is_editable \<and>
            (case info_className i of None \<Rightarrow> False | Some c \<Rightarrow> c \<in> set EDITABLE_CLASS_NAMES)
         then True else is_editable)"

text \<open>The condition of lines 95 to 97, negated: the element is kept.\<close>

definition interactable :: "info \<Rightarrow> bool" where
  "interactable i =
     (flag (info_clickable i) \<or> flag (info_longClickable i) \<or> flag (info_scrollable i) \<or>
      flag (info_checkable i) \<or> is_editable_of i)"

text \<open>Lines 116 to 134: the selector.\<close>

definition build_selector :: "string \<Rightarrow> string \<Rightarrow> string \<Rightarrow> string \<Rightarrow> selector_dict" where
  "build_selector res_id txt desc cls =
     (if res_id \<noteq> [] then [(''resourceId'', res_id)]
      else if txt \<noteq> [] then
        (''text'', txt) # (if cls \<noteq> [] then [(''className'', cls)] else [])
      else if desc \<noteq> [] then
        (''description'', desc) # (if cls \<noteq> [] then [(''className'', cls)] else [])
      else if cls \<noteq> [] then [(''className'', cls)]
      else [])"

text \<open>Lines 100 to 134: the entry built from an attribute map.\<close>

definition element_data :: "info \<Rightarrow> element" where
  "element_data i =
     \<lparr> el_text = str_or_empty (info_text i),
       resource_id = str_or_empty (info_resourceId i),
       class_name = str_or_empty (info_className i),
       description = str_or_empty (info_contentDescription i),
       bounds = (case info_bounds i of None \<Rightarrow> [] | Some b \<Rightarrow> b),
       clickable = flag (info_clickable i),
       long_clickable = flag (info_longClickable i),
       scrollable = flag (info_scrollable i),
       checkable = flag (info_checkable i),
       checked = flag (info_checked i),
       editable = is_editable_of i,
       selector =
         build_selector (str_or_empty (info_resourceId i)) (str_or_empty (info_text i))
           (str_or_empty (info_contentDescription i)) (str_or_empty (info_className i)) \<rparr>"

text \<open>
  The handler of lines 137 to 140 runs when the first read of \<^verbatim>\<open>elem.info\<close> raised. Its
  message is
  \<^verbatim>\<open>f"... {elem.info.get('resourceId', 'N/A') if elem.info else 'N/A'} ..."\<close>,
  which reads \<^verbatim>\<open>elem.info\<close> again: once for the condition (read 1) and, when that is a
  non-empty dictionary, once more for \<^verbatim>\<open>.get\<close> (read 2). The handler completes, and the
  loop continues, unless one of these reads raises or read 2 is \<^verbatim>\<open>None\<close>, which has no
  \<^verbatim>\<open>get\<close>.
\<close>

definition handler_completes :: "raw_elem \<Rightarrow> bool" where
  "handler_completes elem =
     (case elem 1 of
        ReadRaises \<Rightarrow> False
      | ReadNone \<Rightarrow> True
      | ReadEmpty \<Rightarrow> True
      | ReadInfo i \<Rightarrow>
          (case elem 2 of ReadRaises \<Rightarrow> False | ReadNone \<Rightarrow> False | ReadEmpty \<Rightarrow> True
           | ReadInfo j \<Rightarrow> True))"

text \<open>An exception that leaves \<^verbatim>\<open>get_screen_elements\<close>.\<close>

datatype build_error = InspectionError

text \<open>
  The loop of lines 67 to 140, with \<^verbatim>\<open>processed_elements_signatures\<close> and
  \<^verbatim>\<open>interactable_elements\<close> as its state.
\<close>

fun process_elements ::
  "raw_elem list \<Rightarrow> signature set \<Rightarrow> element list \<Rightarrow> build_error + element list" where
  "process_elements [] seen acc = Inr acc"
| "process_elements (elem # rest) seen acc =
     (case elem 0 of
        ReadRaises \<Rightarrow>
          (if handler_completes elem then process_elements rest seen acc
           else Inl InspectionError)
      | ReadNone \<Rightarrow> process_elements rest seen acc
      | ReadEmpty \<Rightarrow> process_elements rest seen acc
      | ReadInfo i \<Rightarrow>
          (if signature_of i \<in> seen then process_elements rest seen acc
           else if \<not> interactable i
             then process_elements rest (insert (signature_of i) seen) acc
           else process_elements rest (insert (signature_of i) seen) (acc @ [element_data i])))"

definition get_screen_elements :: "device \<Rightarrow> build_error + element list" where
  "get_screen_elements d =
     (case elements_to_check d of
        None \<Rightarrow> Inr []
      | Some elems \<Rightarrow> process_elements elems {} [])"

text \<open>
  For the statements about the catalog: the attribute maps that the first reads gave,
  in discovery order, and the first raw result with a given signature.
\<close>

definition read_infos :: "raw_elem list \<Rightarrow> info list" where
  "read_infos elems =
     concat (map (\<lambda>elem. case elem 0 of ReadInfo i \<Rightarrow> [i] | _ \<Rightarrow> []) elems)"


text \<open>
  The catalog as the design describes it: of the attribute maps read, the first one of
  each signature, then those that are interactable.
\<close>

function first_by_signature :: "info list \<Rightarrow> info list" where
  "first_by_signature [] = []"
| "first_by_signature (x # xs) =
     x # first_by_signature (filter (\<lambda>y. signature_of y \<noteq> signature_of x) xs)"
  by pat_completeness auto
termination
  by (relation "measure length") (auto simp: less_Suc_eq_le)

definition kept_infos :: "info list \<Rightarrow> info list" where
  "kept_infos xs = filter interactable (first_by_signature xs)"

text \<open>
  The loop's effect on a list of attribute maps, given the signatures seen so far:
  a map whose signature was seen is dropped.
\<close>

fun dedup_from :: "signature set \<Rightarrow> info list \<Rightarrow> info list" where
  "dedup_from seen [] = []"
| "dedup_from seen (x # xs) =
     (if signature_of x \<in> seen then dedup_from seen xs
      else x # dedup_from (insert (signature_of x) seen) xs)"

section \<open>The screen identifier resolver: \<^verbatim>\<open>generate_screen_name\<close>\<close>

text \<open>
  The sort key of line 180: \<^verbatim>\<open>bounds.get('top', float('inf'))\<close>. A missing coordinate
  is \<open>(True, 0)\<close>, which is above every \<open>(False, v)\<close> in the lexicographic order, as
  infinity is above every integer.
\<close>

definition coord_key :: "bounds_dict \<Rightarrow> string \<Rightarrow> bool \<times> int" where
  "coord_key b k = (case map_of b k of None \<Rightarrow> (True, 0) | Some v \<Rightarrow> (False, v))"

definition top_left_key :: "element \<Rightarrow> (bool \<times> int) \<times> (bool \<times> int)" where
  "top_left_key el = (coord_key (bounds el) ''top'', coord_key (bounds el) ''left'')"

definition is_title_id :: "string \<Rightarrow> bool" where
  "is_title_id res_id =
     (py_in ''title'' res_id \<or> py_in ''action_bar_title'' res_id \<or> py_in ''toolbar_title'' res_id)"

text \<open>The loop of lines 183 to 188, with \<^verbatim>\<open>potential_name\<close> as the accumulator.\<close>

fun title_scan :: "element list \<Rightarrow> string \<Rightarrow> string" where
  "title_scan [] potential_name = potential_name"
| "title_scan (tv # tvs) potential_name =
     (if is_title_id (py_lower (resource_id tv))
      then (if el_text tv \<noteq> [] then el_text tv else title_scan tvs (el_text tv))
      else title_scan tvs potential_name)"

text \<open>The loop of lines 192 to 195.\<close>

fun first_text_scan :: "element list \<Rightarrow> string \<Rightarrow> string" where
  "first_text_scan [] potential_name = potential_name"
| "first_text_scan (tv # tvs) potential_name =
     (if el_text tv \<noteq> [] then el_text tv else first_text_scan tvs potential_name)"

text \<open>Lines 198 to 206.\<close>

definition activity_fallback :: "app_current_result \<Rightarrow> string \<Rightarrow> string" where
  "activity_fallback app potential_name =
     (case app of
        AppCurrentRaises \<Rightarrow> []
      | AppCurrent None \<Rightarrow> potential_name
      | AppCurrent (Some activity_name) \<Rightarrow>
          (if activity_name \<noteq> [] then activity_name else potential_name))"

definition screen_name_candidate :: "device \<Rightarrow> element list \<Rightarrow> string" where
  "screen_name_candidate d elements =
     (let text_views =
            sort_key top_left_key
              (filter (\<lambda>el. class_name el = ''android.widget.TextView'' \<and> el_text el \<noteq> [])
                 elements);
          name1 = title_scan text_views [];
          name2 = (if name1 = [] then first_text_scan text_views name1 else name1);
          name3 = (if name2 = [] then activity_fallback (app_current d) name2 else name2)
      in if name3 = [] then ''Unnamed Screen'' else name3)"

definition generate_screen_name :: "device \<Rightarrow> element list \<Rightarrow> string" where
  "generate_screen_name d elements =
     normalize_to_snake_case (screen_name_candidate d elements)"

section \<open>Source literals: \<^verbatim>\<open>repr\<close> of a string, and reading a literal back\<close>

definition backslash :: char where
  "backslash = CHR 0x5C"

definition squote :: char where
  "squote = CHR 0x27"

definition dquote :: char where
  "dquote = CHR 0x22"

text \<open>The digit of \<open>d < 16\<close> in \<^verbatim>\<open>"0123456789abcdef"\<close>.\<close>

definition hex_digit :: "nat \<Rightarrow> char" where
  "hex_digit d = ''0123456789abcdef'' ! d"

text \<open>
  \<^verbatim>\<open>str.isprintable\<close> of one character: the ASCII range 32 to 126, and of the code
  points from 128 on those that are neither controls (128 to 159), nor the
  no-break space (160), nor the soft hyphen (173).
\<close>

definition py_isprintable :: "char \<Rightarrow> bool" where
  "py_isprintable c =
     (let n = (of_char c :: nat)
      in (32 \<le> n \<and> n \<le> 126) \<or> (161 \<le> n \<and> n \<noteq> 173))"

text \<open>
  One character inside \<^verbatim>\<open>repr(s)\<close>, for the quote that encloses the literal: the
  quote and the backslash get a backslash; tab, line feed and carriage return are
  \<^verbatim>\<open>\t\<close>, \<^verbatim>\<open>\n\<close>, \<^verbatim>\<open>\r\<close>; any other character that is not printable is \<^verbatim>\<open>\xhh\<close>;
  a printable character stands for itself.
\<close>

definition repr_char :: "char \<Rightarrow> char \<Rightarrow> string" where
  "repr_char quote c =
     (if c = quote \<or> c = backslash then [backslash, c]
      else if c = CHR 0x09 then [backslash, CHR ''t'']
      else if c = CHR 0x0A then [backslash, CHR ''n'']
      else if c = CHR 0x0D then [backslash, CHR ''r'']
      else if \<not> py_isprintable c
        then [backslash, CHR ''x'', hex_digit (of_char c div 16), hex_digit (of_char c mod 16)]
      else [c])"

text \<open>
  \<^verbatim>\<open>repr(s)\<close>: single quotes enclose the literal, unless the string has a single quote
  and no double quote.
\<close>

definition repr_quote :: "string \<Rightarrow> char" where
  "repr_quote s = (if squote \<in> set s \<and> dquote \<notin> set s then dquote else squote)"

definition py_repr :: "string \<Rightarrow> string" where
  "py_repr s =
     [repr_quote s] @ concat (map (repr_char (repr_quote s)) s) @ [repr_quote s]"

text \<open>
  Reading a literal back, as Python reads a string literal with no prefix that one
  quote character opens. \<open>None\<close> is a text that is not such a literal (it does not
  end, a line ends inside it, an escape is malformed) or that this model does not
  read (three quotes open it, or an escape names a code point by \<^verbatim>\<open>\N\<close>, \<^verbatim>\<open>\u\<close>,
  \<^verbatim>\<open>\U\<close> or an octal value above 255).
\<close>

definition hex_val :: "char \<Rightarrow> nat option" where
  "hex_val c =
     (let n = (of_char c :: nat)
      in if 48 \<le> n \<and> n \<le> 57 then Some (n - 48)
         else if 97 \<le> n \<and> n \<le> 102 then Some (n - 87)
         else if 65 \<le> n \<and> n \<le> 70 then Some (n - 55)
         else None)"

definition is_octal_digit :: "char \<Rightarrow> bool" where
  "is_octal_digit c = (let n = (of_char c :: nat) in 48 \<le> n \<and> n \<le> 55)"

text \<open>An octal escape has one to three digits: its value, and what follows it.\<close>

definition octal_escape :: "string \<Rightarrow> nat \<times> string" where
  "octal_escape s =
     (let ds = takeWhile is_octal_digit (take 3 s)
      in (foldl (\<lambda>acc d. 8 * acc + (of_char d - 48)) 0 ds, drop (length ds) s))"

text \<open>The escapes of one letter: the character each stands for.\<close>

definition simple_escape :: "char \<Rightarrow> char option" where
  "simple_escape e =
     (if e = backslash \<or> e = squote \<or> e = dquote then Some e
      else if e = CHR ''n'' then Some (CHR 0x0A)
      else if e = CHR ''r'' then Some (CHR 0x0D)
      else if e = CHR ''t'' then Some (CHR 0x09)
      else if e = CHR ''a'' then Some (CHR 0x07)
      else if e = CHR ''b'' then Some (CHR 0x08)
      else if e = CHR ''f'' then Some (CHR 0x0C)
      else if e = CHR ''v'' then Some (CHR 0x0B)
      else None)"

definition cons_result :: "string \<Rightarrow> (string \<times> string) option \<Rightarrow> (string \<times> string) option" where
  "cons_result cs r = (case r of None \<Rightarrow> None | Some (body, rest) \<Rightarrow> Some (cs @ body, rest))"

text \<open>
  The body of a literal up to its closing quote: the string it denotes, and the text
  after the closing quote.
\<close>

function literal_body :: "char \<Rightarrow> string \<Rightarrow> (string \<times> string) option" where
  "literal_body quote [] = None"
| "literal_body quote (c # cs) =
     (if c = quote then Some ([], cs)
      else if c = CHR 0x0A \<or> c = CHR 0x0D then None
      else if c \<noteq> backslash then cons_result [c] (literal_body quote cs)
      else
        (case cs of
           [] \<Rightarrow> None
         | e # es \<Rightarrow>
             (case simple_escape e of
                Some v \<Rightarrow> cons_result [v] (literal_body quote es)
              | None \<Rightarrow>
                  if e = CHR 0x0A then literal_body quote es
                  else if e = CHR ''x'' then
                    (case es of
                       h1 # h2 # rest \<Rightarrow>
                         (case (hex_val h1, hex_val h2) of
                            (Some a, Some b) \<Rightarrow>
                              cons_result [char_of (16 * a + b)] (literal_body quote rest)
                          | _ \<Rightarrow> None)
                     | _ \<Rightarrow> None)
                  else if is_octal_digit e then
                    (let (v, rest) = octal_escape (e # es)
                     in if v < 256 then cons_result [char_of v] (literal_body quote rest)
                        else None)
                  else if e = CHR ''N'' \<or> e = CHR ''u'' \<or> e = CHR ''U'' then None
                  else cons_result [backslash, e] (literal_body quote es))))"
  by pat_completeness auto
termination
  by (relation "measure (\<lambda>(quote, s). length s)")
     (auto simp: octal_escape_def Let_def)

definition parse_str_literal :: "string \<Rightarrow> (string \<times> string) option" where
  "parse_str_literal s =
     (case s of
        [] \<Rightarrow> None
      | q # cs \<Rightarrow>
          if q \<noteq> squote \<and> q \<noteq> dquote then None
          else if py_startswith [q, q] cs then None
          else literal_body q cs)"

section \<open>The code emitter\<close>

text \<open>\<^verbatim>\<open>sep.join(parts)\<close>.\<close>

fun py_join :: "string \<Rightarrow> string list \<Rightarrow> string" where
  "py_join sep [] = []"
| "py_join sep [p] = p"
| "py_join sep (p # q # ps) = p @ sep @ py_join sep (q # ps)"

text \<open>
  \<^verbatim>\<open>_build_selector_string\<close>, lines 447 to 471: the preferred keys that the selector
  has with a non-empty value, in the order of preference, then the other items with a
  non-empty value, each as \<^verbatim>\<open>key=repr(value)\<close>.
\<close>

definition preferred_keys :: "string list" where
  "preferred_keys = [''resourceId'', ''text'', ''description'', ''className'']"

definition preferred_items :: "selector_dict \<Rightarrow> (string \<times> string) list" where
  "preferred_items selector_dict =
     concat (map (\<lambda>key. case map_of selector_dict key of
                           None \<Rightarrow> []
                         | Some v \<Rightarrow> if v \<noteq> [] then [(key, v)] else [])
                 preferred_keys)"

definition build_selector_string :: "selector_dict \<Rightarrow> string" where
  "build_selector_string selector_dict =
     (if selector_dict = [] then []
      else
        let first_items = preferred_items selector_dict;
            processed_keys = map fst first_items;
            other_items = filter (\<lambda>(key, v). key \<notin> set processed_keys \<and> v \<noteq> []) selector_dict
        in py_join '', '' (map (\<lambda>(key, v). key @ ''='' @ py_repr v) (first_items @ other_items)))"

text \<open>
  A recorded action is a dictionary with an \<^verbatim>\<open>action_type\<close>; each type has its own
  keys. The last field of every constructor is the \<^verbatim>\<open>description\<close>.
  \<^item> \<open>Click element_selector description\<close>
  \<^item> \<open>SetText element_selector text description\<close>
  \<^item> \<open>Scroll element_selector direction description\<close>
  \<^item> \<open>Swipe direction description\<close>
  \<^item> \<open>ScrollToText scroll_element_selector target_text direction description\<close>
\<close>

datatype action =
    Click selector_dict string
  | SetText selector_dict string string
  | Scroll selector_dict string string
  | Swipe string string
  | ScrollToText selector_dict string string string

text \<open>Lines 500 to 509.\<close>

definition fling_method :: "string \<Rightarrow> string" where
  "fling_method direction =
     (if direction = ''up'' then ''up''
      else if direction = ''down'' then ''down''
      else if direction = ''left'' then ''left''
      else if direction = ''right'' then ''right''
      else ''forward'')"

text \<open>
  Lines 486 to 522: the statement for one action, after the indentation. The
  statement for \<^verbatim>\<open>scroll_to_text\<close> is
  \<^verbatim>\<open>f"d({scroll_selector_str}).scroll.to(text={repr(action['target_text'])})"\<close>;
  the line that would add the direction is a comment (line 522).
\<close>

definition action_code_line :: "action \<Rightarrow> string" where
  "action_code_line a =
     ''    '' @
     (case a of
        Click sel d \<Rightarrow> ''d('' @ build_selector_string sel @ '').click()''
      | SetText sel t d \<Rightarrow>
          ''d('' @ build_selector_string sel @ '').set_text('' @ py_repr t @ '')''
      | Scroll sel dir d \<Rightarrow>
          ''d('' @ build_selector_string sel @ '').fling.'' @ fling_method dir @ ''()''
      | Swipe dir d \<Rightarrow> ''d.swipe_ext('' @ [dquote] @ dir @ [dquote] @ '')''
      | ScrollToText sel target dir d \<Rightarrow>
          ''d('' @ build_selector_string sel @ '').scroll.to(text='' @ py_repr target @ '')'')"

definition stability_delay :: string where
  "stability_delay = ''    time.sleep(0.5) # Stability delay''"

text \<open>Lines 524 to 526.\<close>

definition action_lines :: "action \<Rightarrow> string list" where
  "action_lines a =
     (let code_line = action_code_line a
      in if py_strip py_isspace code_line \<noteq> [] then [code_line, stability_delay] else [])"

text \<open>\<^verbatim>\<open>generate_python_function\<close>, lines 474 to 532.\<close>

definition generate_python_function :: "string \<Rightarrow> action list \<Rightarrow> string" where
  "generate_python_function screen_name recorded_actions =
     (let header =
            [''def '' @ screen_name @ ''(d):'',
             ''    '' @ [dquote, dquote, dquote] @ ''Automates actions on the '' @ screen_name @
               '' screen.'' @ [dquote, dquote, dquote],
             ''    print(f'' @ [squote] @ ''Executing actions for '' @ screen_name @
               '' screen...'' @ [squote] @ '')''];
          function_code_lines =
            (if recorded_actions = [] then header @ [''    pass'']
             else
               let body = header @ concat (map action_lines recorded_actions)
               in if length body \<le> 3 then body @ [''    pass''] else body)
      in py_join [CHR 0x0A] function_code_lines)"

section \<open>The action recorder: \<^verbatim>\<open>build_actions_for_screen\<close>\<close>

text \<open>
  \<^verbatim>\<open>int(s)\<close> for a string: white space around the number is dropped, a sign may come
  first, and the digits may be separated by single underscores. \<open>None\<close> is
  \<^verbatim>\<open>ValueError\<close>.
\<close>

definition digit_val :: "char \<Rightarrow> nat" where
  "digit_val c = of_char c - 48"

fun parse_digits :: "string \<Rightarrow> nat \<Rightarrow> nat option" where
  "parse_digits [] acc = Some acc"
| "parse_digits [c] acc =
     (if is_ascii_digit c then Some (10 * acc + digit_val c) else None)"
| "parse_digits (c # d # cs) acc =
     (if is_ascii_digit c then parse_digits (d # cs) (10 * acc + digit_val c)
      else if c = CHR ''_'' \<and> is_ascii_digit d then parse_digits cs (10 * acc + digit_val d)
      else None)"

definition py_int :: "string \<Rightarrow> int option" where
  "py_int s =
     (let t = py_strip py_isspace s;
          negative = (t \<noteq> [] \<and> hd t = CHR ''-'');
          digits = (if t \<noteq> [] \<and> (hd t = CHR ''-'' \<or> hd t = CHR ''+'') then tl t else t)
      in if digits = [] \<or> \<not> is_ascii_digit (hd digits) then None
         else (case parse_digits (tl digits) (digit_val (hd digits)) of
                 None \<Rightarrow> None
               | Some n \<Rightarrow> Some (if negative then - int n else int n)))"

text \<open>\<^verbatim>\<open>_get_element_description\<close>, lines 560 to 576, for an entry \<open>el\<close> of the catalog (\<^verbatim>\<open>element_data\<close> in the source).\<close>

definition get_element_description :: "element \<Rightarrow> string" where
  "get_element_description el =
     (if el_text el \<noteq> [] then
        [squote] @ el_text el @ [squote] @ '' ('' @ class_name el @ '')''
      else if resource_id el \<noteq> [] then
        ''ID:'' @ [squote] @ resource_id el @ [squote] @ '' ('' @
          class_name el @ '')''
      else if description el \<noteq> [] then
        ''Desc:'' @ [squote] @ description el @ [squote] @ '' ('' @
          class_name el @ '')''
      else class_name el)"

text \<open>
  The recorder reads the operator's lines one at a time. Its state is the call of
  \<^verbatim>\<open>input\<close> that waits for the next line, with the local variables that are alive
  there, and the list \<^verbatim>\<open>recorded_actions\<close>:
  \<^item> \<open>Browsing\<close>: the menu choice, line 608 (in \<^verbatim>\<open>_get_user_choice\<close>, line 538);
  \<^item> \<open>SelectingElement action_choice\<close>: the element number, line 621 (in
    \<^verbatim>\<open>_get_element_from_list\<close>, line 552);
  \<^item> \<open>RecordingText el\<close>: the text to enter, line 641;
  \<^item> \<open>RecordingScroll el\<close>: the direction of a scroll or swipe, line 649;
  \<^item> \<open>RecordingScrollToText el\<close>: the text to scroll to, line 673;
  \<^item> \<open>RecordingScrollToTextDirection el target_text\<close>: the direction of
    the scroll to the text, line 684;
  \<^item> \<open>Done\<close>: the function has returned.
\<close>

datatype recorder_state =
    Browsing
  | SelectingElement int
  | RecordingText element
  | RecordingScroll element
  | RecordingScrollToText element
  | RecordingScrollToTextDirection element string
  | Done

record recorder =
  state :: recorder_state
  recorded_actions :: "action list"

text \<open>Lines 649 to 652 and 682 to 687: the direction read from a line.\<close>

definition scroll_direction :: "string \<Rightarrow> string" where
  "scroll_direction line =
     (let direction = py_lower (py_strip py_isspace line)
      in if direction \<notin> set [''up'', ''down'', ''left'', ''right''] then ''down''
         else direction)"

definition scroll_direction_options :: "string list" where
  "scroll_direction_options =
     [''forward'', ''backward'', ''vertical_forward'', ''vertical_backward'',
      ''horizontal_forward'', ''horizontal_backward'']"

definition scroll_to_text_direction :: "string \<Rightarrow> string" where
  "scroll_to_text_direction line =
     (let direction = py_lower (py_strip py_isspace line)
      in if direction \<notin> set scroll_direction_options then ''forward'' else direction)"

text \<open>The actions of lines 632 to 636, 642 to 647, 655 to 667 and 689 to 695.\<close>

definition click_action :: "element \<Rightarrow> action" where
  "click_action el =
     Click (selector el) (''Click on '' @ get_element_description el)"

definition set_text_action :: "element \<Rightarrow> string \<Rightarrow> action" where
  "set_text_action el user_text =
     SetText (selector el) user_text
       (''Enter text '' @ [squote] @ user_text @ [squote] @ '' into '' @
          get_element_description el)"

definition scroll_action :: "element \<Rightarrow> string \<Rightarrow> action" where
  "scroll_action el direction =
     (if scrollable el then
        Scroll (selector el) direction
          (''Scroll '' @ get_element_description el @ '' '' @ direction)
      else Swipe direction (''Swipe screen '' @ direction))"

definition scroll_to_text_action :: "element \<Rightarrow> string \<Rightarrow> string \<Rightarrow> action" where
  "scroll_to_text_action el target_text direction =
     ScrollToText (selector el) target_text direction
       (''Scroll '' @ get_element_description el @ '' '' @ direction @
          '' until element with text '' @ [squote] @ target_text @ [squote] @ '' is visible'')"

text \<open>
  One line of input. A line that \<^verbatim>\<open>int\<close> rejects, or a number out of range, leaves
  the state as it is: the prompt is shown again.
\<close>

definition step :: "element list \<Rightarrow> recorder \<Rightarrow> string \<Rightarrow> recorder" where
  "step elements r line =
     (case state r of
        Browsing \<Rightarrow>
          (case py_int (py_strip py_isspace line) of
             None \<Rightarrow> r
           | Some action_choice \<Rightarrow>
               if \<not> (1 \<le> action_choice \<and> action_choice \<le> 5) then r
               else if action_choice = 5 then r\<lparr>state := Done\<rparr>
               else if elements = [] then r
               else r\<lparr>state := SelectingElement action_choice\<rparr>)
      | SelectingElement action_choice \<Rightarrow>
          (case py_int (py_strip py_isspace line) of
             None \<Rightarrow> r
           | Some choice \<Rightarrow>
               if \<not> (1 \<le> choice \<and> choice \<le> int (length elements)) then r
               else
                 let el = elements ! nat (choice - 1)
                 in if action_choice = 1 then
                      r\<lparr>state := Browsing,
                        recorded_actions := recorded_actions r @ [click_action el]\<rparr>
                    else if action_choice = 2 then
                      (if \<not> editable el then r\<lparr>state := Browsing\<rparr>
                       else r\<lparr>state := RecordingText el\<rparr>)
                    else if action_choice = 3 then r\<lparr>state := RecordingScroll el\<rparr>
                    else if action_choice = 4 then
                      (if \<not> scrollable el then r\<lparr>state := Browsing\<rparr>
                       else r\<lparr>state := RecordingScrollToText el\<rparr>)
                    else r\<lparr>state := Browsing\<rparr>)
      | RecordingText el \<Rightarrow>
          r\<lparr>state := Browsing,
            recorded_actions := recorded_actions r @
              [set_text_action el (py_strip py_isspace line)]\<rparr>
      | RecordingScroll el \<Rightarrow>
          r\<lparr>state := Browsing,
            recorded_actions := recorded_actions r @
              [scroll_action el (scroll_direction line)]\<rparr>
      | RecordingScrollToText el \<Rightarrow>
          (let target_text = py_strip py_isspace line
           in if target_text = [] then r\<lparr>state := Browsing\<rparr>
              else r\<lparr>state := RecordingScrollToTextDirection el target_text\<rparr>)
      | RecordingScrollToTextDirection el target_text \<Rightarrow>
          r\<lparr>state := Browsing,
            recorded_actions := recorded_actions r @
              [scroll_to_text_action el target_text (scroll_to_text_direction line)]\<rparr>
      | Done \<Rightarrow> r)"

text \<open>
  Lines 580 to 584: with no element the function returns the empty list at once, and
  no line is read.
\<close>

definition recorder_start :: "element list \<Rightarrow> recorder" where
  "recorder_start elements =
     \<lparr>state = (if elements = [] then Done else Browsing), recorded_actions = []\<rparr>"

definition run_recorder :: "element list \<Rightarrow> string list \<Rightarrow> recorder" where
  "run_recorder elements inputs = foldl (step elements) (recorder_start elements) inputs"

text \<open>
  \<^verbatim>\<open>build_actions_for_screen\<close> on the lines the operator types: the list it returns,
  or \<open>None\<close> when the lines end before it returns (\<^verbatim>\<open>input\<close> raises \<^verbatim>\<open>EOFError\<close>).
\<close>

definition build_actions_for_screen :: "element list \<Rightarrow> string list \<Rightarrow> action list option" where
  "build_actions_for_screen elements inputs =
     (let r = run_recorder elements inputs
      in if state r = Done then Some (recorded_actions r) else None)"

section \<open>Example screens\<close>

text \<open>Attribute maps, raw elements and devices for the concrete instances below.\<close>

definition no_info :: info where
  "no_info =
     \<lparr> info_text = None, info_resourceId = None, info_className = None,
       info_contentDescription = None, info_bounds = None, info_clickable = None,
       info_longClickable = None, info_scrollable = None, info_checkable = None,
       info_checked = None, info_editable = None \<rparr>"

definition btn_next_info :: info where
  "btn_next_info =
     no_info \<lparr> info_text := Some ''Next'', info_resourceId := Some ''btn_next'',
       info_className := Some ''android.widget.Button'',
       info_bounds := Some [(''bottom'', 160), (''left'', 0), (''right'', 200), (''top'', 100)],
       info_clickable := Some True \<rparr>"


definition name_field_info :: info where
  "name_field_info =
     no_info \<lparr> info_text := Some [], info_contentDescription := Some ''Name'',
       info_className := Some ''android.widget.EditText'' \<rparr>"

definition list_info :: info where
  "list_info =
     no_info \<lparr> info_text := Some [], info_resourceId := Some ''list'',
       info_className := Some ''android.widget.ListView'', info_scrollable := Some True \<rparr>"

text \<open>An element whose every read gives the same map, and one whose every read raises.\<close>

definition steady :: "info \<Rightarrow> raw_elem" where
  "steady i = (\<lambda>k. ReadInfo i)"

definition vanished :: raw_elem where
  "vanished = (\<lambda>k. ReadRaises)"

definition empty_device :: device where
  "empty_device =
     \<lparr> by_clickable = Found [], by_longClickable = Found [], by_scrollable = Found [],
       by_checkable = Found [], by_editable = Found [], by_className = (\<lambda>c. Found []),
       app_current = AppCurrent (Some ''com.example.app.MainActivity'') \<rparr>"

text \<open>
  A screen with a button (found by two queries), a list and a text field.
\<close>

definition form_device :: device where
  "form_device =
     empty_device \<lparr> by_clickable := Found [steady btn_next_info],
       by_longClickable := Found [steady btn_next_info],
       by_scrollable := Found [steady list_info],
       by_className := (\<lambda>c. if c = ''android.widget.EditText''
                            then Found [steady name_field_info] else Found []) \<rparr>"


text \<open>A screen one element of which is gone when its \<^verbatim>\<open>info\<close> is read.\<close>

definition vanished_device :: device where
  "vanished_device =
     empty_device \<lparr> by_clickable := Found [vanished, steady btn_next_info] \<rparr>"


text \<open>The catalog of the screen with the button, the list and the text field.\<close>

definition form_catalog :: "element list" where
  "form_catalog = [element_data btn_next_info, element_data list_info, element_data name_field_info]"

section \<open>What a valid screen name is\<close>

text \<open>
  A valid source identifier in the sense of the data model: not empty, made of the
  characters \<^verbatim>\<open>[a-z0-9_]\<close> only, and not starting with a digit.
\<close>

definition valid_identifier :: "string \<Rightarrow> bool" where
  "valid_identifier s = (s \<noteq> [] \<and> list_all is_ident_char s \<and> \<not> is_ascii_digit (hd s))"

text \<open>No two neighbouring underscores.\<close>

fun no_double_underscore :: "string \<Rightarrow> bool" where
  "no_double_underscore (a # b # cs) =
     (\<not> (is_underscore a \<and> is_underscore b) \<and> no_double_underscore (b # cs))"
| "no_double_underscore cs = True"

section \<open>What the validation gates let through\<close>

text \<open>
  An action that passed the gates of the recorder: a \<^verbatim>\<open>set_text\<close> action carries the
  selector of an editable entry of the catalog; a \<^verbatim>\<open>scroll_to_text\<close> action carries a
  non-empty target text and the selector of a scrollable entry.
\<close>

definition passes_gates :: "element list \<Rightarrow> action \<Rightarrow> bool" where
  "passes_gates elements a =
     (case a of
        SetText sel t d \<Rightarrow> list_ex (\<lambda>el. editable el \<and> sel = selector el) elements
      | ScrollToText sel target direction d \<Rightarrow>
          target \<noteq> [] \<and> list_ex (\<lambda>el. scrollable el \<and> sel = selector el) elements
      | _ \<Rightarrow> True)"

text \<open>The element a pending prompt holds went through the gate of its action.\<close>

definition pending_ok :: "element list \<Rightarrow> recorder_state \<Rightarrow> bool" where
  "pending_ok elements s =
     (case s of
        RecordingText el \<Rightarrow> el \<in> set elements \<and> editable el
      | RecordingScrollToText el \<Rightarrow> el \<in> set elements \<and> scrollable el
      | RecordingScrollToTextDirection el target \<Rightarrow>
          el \<in> set elements \<and> scrollable el \<and> target \<noteq> []
      | _ \<Rightarrow> True)"

text \<open>Both together, for a state of the recorder.\<close>

definition gates_hold :: "element list \<Rightarrow> recorder \<Rightarrow> bool" where
  "gates_hold elements r =
     (list_all (passes_gates elements) (recorded_actions r) \<and> pending_ok elements (state r))"

section \<open>Properties of the normalization\<close>

lemma re_sub_runs_set: "set (re_sub_runs P repl s) \<subseteq> set s \<union> set repl"
  by (induction P repl s rule: re_sub_runs.induct)
     (auto dest: set_dropWhileD)

lemma re_sub_runs_fixed: "\<forall>c \<in> set s. \<not> P c \<Longrightarrow> re_sub_runs P repl s = s"
  by (induction P repl s rule: re_sub_runs.induct) auto

lemma no_double_underscore_Cons:
  "no_double_underscore (a # cs) =
     (no_double_underscore cs \<and> (cs = [] \<or> \<not> (is_underscore a \<and> is_underscore (hd cs))))"
  by (cases cs) auto

lemma dropWhile_hd_not: "dropWhile P cs \<noteq> [] \<Longrightarrow> \<not> P (hd (dropWhile P cs))"
  by (simp add: hd_dropWhile)

lemma re_sub_runs_hd_not:
  "ys = [] \<or> \<not> P (hd ys) \<Longrightarrow>
   re_sub_runs P repl ys = [] \<or> \<not> P (hd (re_sub_runs P repl ys))"
  by (cases ys) auto

lemma re_sub_underscore_after_drop:
  "re_sub_runs is_underscore ''_'' (dropWhile is_underscore cs) = [] \<or>
   \<not> is_underscore (hd (re_sub_runs is_underscore ''_'' (dropWhile is_underscore cs)))"
proof (rule re_sub_runs_hd_not)
  show "dropWhile is_underscore cs = [] \<or> \<not> is_underscore (hd (dropWhile is_underscore cs))"
    using dropWhile_hd_not [of is_underscore cs] by blast
qed

lemma re_sub_underscore_no_double_gen:
  "P = is_underscore \<Longrightarrow> repl = ''_'' \<Longrightarrow> no_double_underscore (re_sub_runs P repl s)"
proof (induction P repl s rule: re_sub_runs.induct)
  case (1 P repl)
  show ?case by simp
next
  case (2 P repl c cs)
  show ?case
  proof (cases "is_underscore c")
    case True
    with 2 re_sub_underscore_after_drop [of cs] show ?thesis
      by (simp add: no_double_underscore_Cons)
  next
    case False
    with 2 show ?thesis
      by (simp add: no_double_underscore_Cons)
  qed
qed

lemma re_sub_underscore_no_double:
  "no_double_underscore (re_sub_runs is_underscore ''_'' s)"
  by (rule re_sub_underscore_no_double_gen) simp_all

lemma re_sub_underscore_fixed_gen:
  "P = is_underscore \<Longrightarrow> repl = ''_'' \<Longrightarrow> no_double_underscore s \<Longrightarrow>
   re_sub_runs P repl s = s"
proof (induction P repl s rule: re_sub_runs.induct)
  case (1 P repl)
  show ?case by simp
next
  case (2 P repl c cs)
  show ?case
  proof (cases "is_underscore c")
    case True
    from "2.prems" True have nd: "no_double_underscore cs"
      and hd: "cs = [] \<or> \<not> is_underscore (hd cs)"
      by (auto simp: no_double_underscore_Cons)
    from hd have dw: "dropWhile is_underscore cs = cs"
      by (cases cs) auto
    from True "2.IH"(1) "2.prems" nd dw have rec: "re_sub_runs P repl cs = cs"
      by simp
    from True have c: "c = CHR ''_''"
      by (simp add: is_underscore_def)
    from True "2.prems" have "re_sub_runs P repl (c # cs) = repl @ re_sub_runs P repl (dropWhile P cs)"
      by simp
    also from rec dw "2.prems" have "\<dots> = ''_'' @ cs"
      by simp
    finally show ?thesis
      using c by simp
  next
    case False
    with 2 show ?thesis
      by (simp add: no_double_underscore_Cons)
  qed
qed

lemma re_sub_underscore_fixed:
  "no_double_underscore s \<Longrightarrow> re_sub_runs is_underscore ''_'' s = s"
  by (rule re_sub_underscore_fixed_gen) simp_all

lemma py_strip_set: "set (py_strip P s) \<subseteq> set s"
  unfolding py_strip_def
  by (metis set_dropWhileD set_rev subsetI)

lemma nd_append:
  "no_double_underscore (xs @ ys) =
     (no_double_underscore xs \<and> no_double_underscore ys \<and>
      (xs = [] \<or> ys = [] \<or> \<not> (is_underscore (last xs) \<and> is_underscore (hd ys))))"
  by (induction xs rule: no_double_underscore.induct) (auto simp: no_double_underscore_Cons)

lemma nd_rev: "no_double_underscore (rev xs) = no_double_underscore xs"
  by (induction xs) (auto simp: nd_append no_double_underscore_Cons last_rev hd_rev)

lemma nd_dropWhile: "no_double_underscore xs \<Longrightarrow> no_double_underscore (dropWhile P xs)"
  by (induction xs) (auto simp: no_double_underscore_Cons)

lemma nd_strip: "no_double_underscore xs \<Longrightarrow> no_double_underscore (py_strip P xs)"
  by (simp add: py_strip_def nd_rev nd_dropWhile)

lemma last_dropWhile_eq: "dropWhile P xs \<noteq> [] \<Longrightarrow> last (dropWhile P xs) = last xs"
  by (induction xs) (auto split: if_splits)

lemma py_strip_ends:
  assumes "py_strip P s \<noteq> []"
  shows "\<not> P (hd (py_strip P s))" and "\<not> P (last (py_strip P s))"
proof -
  let ?ys = "dropWhile P s"
  let ?zs = "dropWhile P (rev ?ys)"
  from assms have zs: "?zs \<noteq> []" by (simp add: py_strip_def)
  have ys: "?ys \<noteq> []"
  proof
    assume "?ys = []"
    then have "?zs = []" by (simp only: rev.simps dropWhile.simps)
    with zs show False ..
  qed
  have "hd (py_strip P s) = last ?zs" using zs by (simp add: py_strip_def hd_rev)
  also have "\<dots> = last (rev ?ys)" using zs by (rule last_dropWhile_eq)
  also have "\<dots> = hd ?ys" using ys by (simp add: last_rev)
  finally show "\<not> P (hd (py_strip P s))" using ys by (simp add: hd_dropWhile)
  have "last (py_strip P s) = hd ?zs" using zs by (simp add: py_strip_def last_rev)
  then show "\<not> P (last (py_strip P s))" using zs by (simp add: hd_dropWhile)
qed

lemma py_strip_fixed:
  "s \<noteq> [] \<Longrightarrow> \<not> P (hd s) \<Longrightarrow> \<not> P (last s) \<Longrightarrow> py_strip P s = s"
proof -
  assume s: "s \<noteq> []" and h: "\<not> P (hd s)" and l: "\<not> P (last s)"
  from s h have d1: "dropWhile P s = s" by (cases s) auto
  from s l have "\<not> P (hd (rev s))" by (simp add: hd_rev)
  with s have d2: "dropWhile P (rev s) = rev s" by (cases "rev s") auto
  show ?thesis by (simp add: py_strip_def d1 d2)
qed

lemma ident_not_space: "is_ident_char c \<Longrightarrow> \<not> py_isspace c"
  by (auto simp: is_ident_char_def py_isspace_def Let_def)

lemma ident_lower: "is_ident_char c \<Longrightarrow> py_lower_char c = c"
  by (auto simp: is_ident_char_def py_lower_char_def Let_def)

lemma ident_not_dot: "is_ident_char c \<Longrightarrow> c \<noteq> CHR ''.''"
  by (auto simp: is_ident_char_def)

lemma snake_steps_ident: "list_all is_ident_char (snake_steps s)"
proof -
  have "set (re_sub_runs is_underscore ''_'' (filter is_ident_char t)) \<subseteq> Collect is_ident_char" for t
    using re_sub_runs_set [of is_underscore "''_''" "filter is_ident_char t"]
    by (auto simp: is_ident_char_def)
  then show ?thesis
    unfolding snake_steps_def Let_def list_all_iff
    using py_strip_set by blast
qed

lemma snake_steps_no_double: "no_double_underscore (snake_steps s)"
  by (simp add: snake_steps_def Let_def nd_strip re_sub_underscore_no_double)

lemma snake_steps_ends:
  "snake_steps s \<noteq> [] \<Longrightarrow>
   \<not> is_underscore (hd (snake_steps s)) \<and> \<not> is_underscore (last (snake_steps s))"
  unfolding snake_steps_def Let_def
  using py_strip_ends by blast

lemma snake_steps_fixed:
  assumes ident: "list_all is_ident_char t" and nd: "no_double_underscore t"
    and ne: "t \<noteq> []" and h: "\<not> is_underscore (hd t)" and l: "\<not> is_underscore (last t)"
  shows "snake_steps t = t"
proof -
  from ident have nodot: "CHR ''.'' \<notin> set t"
    using ident_not_dot by (auto simp: list_all_iff)
  from ident have low: "py_lower t = t"
    by (simp add: py_lower_def list_all_iff ident_lower map_idI)
  from ident have sp: "re_sub_runs py_isspace ''_'' t = t"
    by (intro re_sub_runs_fixed) (auto simp: list_all_iff ident_not_space)
  from ident have fl: "filter is_ident_char t = t"
    by (simp add: list_all_iff)
  show ?thesis
    by (simp add: snake_steps_def Let_def nodot low sp fl
        re_sub_underscore_fixed [OF nd] py_strip_fixed [OF ne h l])
qed

lemma screen_prefix_fixed:
  assumes ident: "list_all is_ident_char t" and nd: "no_double_underscore t"
    and ne: "t \<noteq> []" and h: "\<not> is_underscore (hd t)" and l: "\<not> is_underscore (last t)"
  shows "snake_steps (''screen_'' @ t) = ''screen_'' @ t"
proof (rule snake_steps_fixed)
  show "list_all is_ident_char (''screen_'' @ t)"
    using ident by (simp add: is_ident_char_def)
  show "no_double_underscore (''screen_'' @ t)"
    using nd ne h by (simp add: no_double_underscore_Cons is_underscore_def)
  show "''screen_'' @ t \<noteq> []" by simp
  show "\<not> is_underscore (hd (''screen_'' @ t))" by (simp add: is_underscore_def)
  show "\<not> is_underscore (last (''screen_'' @ t))" using ne l by simp
qed

lemma normalize_unnamed: "normalize_to_snake_case ''unnamed_screen'' = ''unnamed_screen''"
proof -
  have "snake_steps ''unnamed_screen'' = ''unnamed_screen''"
    by (rule snake_steps_fixed) (simp_all add: is_ident_char_def is_underscore_def)
  then show ?thesis
    by (simp add: normalize_to_snake_case_def py_isdigit_def)
qed

lemma normalize_valid: "valid_identifier (normalize_to_snake_case s)"
proof (cases "s = [] \<or> snake_steps s = []")
  case True
  then have "normalize_to_snake_case s = ''unnamed_screen''"
    by (auto simp: normalize_to_snake_case_def)
  then show ?thesis
    by (simp add: valid_identifier_def is_ident_char_def is_ascii_digit_def)
next
  case False
  let ?t = "snake_steps s"
  from False have ne: "?t \<noteq> []" and s: "s \<noteq> []" by simp_all
  show ?thesis
  proof (cases "py_isdigit (hd ?t)")
    case True
    with s ne have n: "normalize_to_snake_case s = ''screen_'' @ ?t"
      by (simp add: normalize_to_snake_case_def)
    show ?thesis
      using snake_steps_ident [of s]
      by (simp add: n valid_identifier_def is_ident_char_def is_ascii_digit_def)
  next
    case False
    with s ne have n: "normalize_to_snake_case s = ?t"
      by (simp add: normalize_to_snake_case_def)
    from False have "\<not> is_ascii_digit (hd ?t)"
      by (auto simp: py_isdigit_def is_ascii_digit_def Let_def)
    with ne show ?thesis
      using snake_steps_ident [of s]
      by (simp add: n valid_identifier_def)
  qed
qed

lemma normalize_fallbacks:
  "(candidate = [] \<or> snake_steps candidate = [] \<longrightarrow>
      normalize_to_snake_case candidate = ''unnamed_screen'') \<and>
   (candidate \<noteq> [] \<and> snake_steps candidate \<noteq> [] \<and> is_ascii_digit (hd (snake_steps candidate)) \<longrightarrow>
      normalize_to_snake_case candidate = ''screen_'' @ snake_steps candidate)"
  by (auto simp: normalize_to_snake_case_def py_isdigit_def is_ascii_digit_def Let_def)

section \<open>The claims about screen names\<close>

text \<open>
  Claim C3. Whatever the candidate string is (the empty string too) and whatever the
  catalog and the foreground application are, the name that \<^verbatim>\<open>generate_screen_name\<close>
  returns through \<^verbatim>\<open>normalize_to_snake_case\<close> is a valid source identifier: it is not
  empty, all its characters are in \<^verbatim>\<open>[a-z0-9_]\<close>, and it does not start with a digit. A
  candidate that is empty, or of which the normalization steps leave nothing, gives
  \<^verbatim>\<open>unnamed_screen\<close>; a result of the steps that starts with a digit is prefixed with
  \<^verbatim>\<open>screen_\<close>.
\<close>

theorem screen_name_valid_identifier:
  "valid_identifier (generate_screen_name d elements) \<and>
   valid_identifier (normalize_to_snake_case candidate) \<and>
   (candidate = [] \<or> snake_steps candidate = [] \<longrightarrow>
      normalize_to_snake_case candidate = ''unnamed_screen'') \<and>
   (candidate \<noteq> [] \<and> snake_steps candidate \<noteq> [] \<and> is_ascii_digit (hd (snake_steps candidate)) \<longrightarrow>
      normalize_to_snake_case candidate = ''screen_'' @ snake_steps candidate)"
proof -
  have "valid_identifier (generate_screen_name d elements)"
    unfolding generate_screen_name_def by (rule normalize_valid)
  moreover have "valid_identifier (normalize_to_snake_case candidate)"
    by (rule normalize_valid)
  ultimately show ?thesis
    using normalize_fallbacks [of candidate] by blast
qed

theorem screen_name_valid_identifier_witness:
  "valid_identifier (generate_screen_name empty_device []) \<and>
   valid_identifier (normalize_to_snake_case ''123abc'') \<and>
   normalize_to_snake_case ''123abc'' = ''screen_'' @ snake_steps ''123abc'' \<and>
   normalize_to_snake_case ''?!'' = ''unnamed_screen''"
proof -
  have h: "''123abc'' \<noteq> [] \<and> snake_steps ''123abc'' \<noteq> [] \<and>
      is_ascii_digit (hd (snake_steps ''123abc''))"
    by code_simp
  have e: "snake_steps ''?!'' = []"
    by code_simp
  show ?thesis
    using h e screen_name_valid_identifier [of empty_device "[]" "''123abc''"]
      screen_name_valid_identifier [of empty_device "[]" "''?!''"]
    by blast
qed

text \<open>
  Claim C8. The \<^verbatim>\<open>normalize_to_snake_case\<close> whose source text the shared helper block
  carries returns, on every input string, what the \<^verbatim>\<open>normalize_to_snake_case\<close> of the
  interactive tool returns.
\<close>

theorem helper_normalize_equivalent:
  "helper_normalize_to_snake_case s = normalize_to_snake_case s"
  by (simp add: helper_normalize_to_snake_case_def normalize_to_snake_case_def
      snake_steps_def Let_def)

text \<open>
  Claim C10. \<^verbatim>\<open>normalize_to_snake_case\<close> is idempotent: normalizing a normalized string
  changes nothing, for every input string.
\<close>

theorem normalize_idempotent:
  "normalize_to_snake_case (normalize_to_snake_case s) = normalize_to_snake_case s"
proof (cases "s = [] \<or> snake_steps s = []")
  case True
  then have "normalize_to_snake_case s = ''unnamed_screen''"
    by (auto simp: normalize_to_snake_case_def)
  then show ?thesis by (simp add: normalize_unnamed)
next
  case False
  let ?t = "snake_steps s"
  from False have ne: "?t \<noteq> []" and s: "s \<noteq> []" by simp_all
  note facts = snake_steps_ident [of s] snake_steps_no_double [of s] ne
    snake_steps_ends [OF ne, THEN conjunct1] snake_steps_ends [OF ne, THEN conjunct2]
  show ?thesis
  proof (cases "py_isdigit (hd ?t)")
    case True
    with s ne have n: "normalize_to_snake_case s = ''screen_'' @ ?t"
      by (simp add: normalize_to_snake_case_def)
    have "snake_steps (''screen_'' @ ?t) = ''screen_'' @ ?t"
      by (rule screen_prefix_fixed) (rule facts)+
    then have "normalize_to_snake_case (''screen_'' @ ?t) = ''screen_'' @ ?t"
      by (simp add: normalize_to_snake_case_def py_isdigit_def)
    with n show ?thesis by simp
  next
    case False
    with s ne have n: "normalize_to_snake_case s = ?t"
      by (simp add: normalize_to_snake_case_def)
    have "snake_steps ?t = ?t"
      by (rule snake_steps_fixed) (rule facts)+
    with ne False have "normalize_to_snake_case ?t = ?t"
      by (simp add: normalize_to_snake_case_def)
    with n show ?thesis by simp
  qed
qed

theorem normalize_idempotent_home_screen:
  "normalize_to_snake_case ''Home Screen'' = ''home_screen'' \<and>
   normalize_to_snake_case (normalize_to_snake_case ''Home Screen'') =
     normalize_to_snake_case ''Home Screen''"
proof -
  have "normalize_to_snake_case ''Home Screen'' = ''home_screen''"
    by code_simp
  then show ?thesis
    using normalize_idempotent [of "''Home Screen''"] by simp
qed

section \<open>Properties of the catalog builder\<close>

lemma read_infos_Cons:
  "read_infos (elem # rest) = (case elem 0 of ReadInfo i \<Rightarrow> [i] | _ \<Rightarrow> []) @ read_infos rest"
  by (simp add: read_infos_def)

lemma process_elements_spec:
  "process_elements elems seen acc = Inr catalog \<Longrightarrow>
   catalog = acc @ map element_data (filter interactable (dedup_from seen (read_infos elems)))"
proof (induction elems arbitrary: seen acc)
  case Nil
  then show ?case by (simp add: read_infos_def)
next
  case (Cons elem rest)
  show ?case
  proof (cases "elem 0")
    case ReadRaises
    with Cons.prems have "process_elements rest seen acc = Inr catalog"
      by (simp split: if_splits)
    from Cons.IH [OF this] ReadRaises show ?thesis
      by (simp add: read_infos_Cons)
  next
    case ReadNone
    with Cons.prems have "process_elements rest seen acc = Inr catalog" by simp
    from Cons.IH [OF this] ReadNone show ?thesis
      by (simp add: read_infos_Cons)
  next
    case ReadEmpty
    with Cons.prems have "process_elements rest seen acc = Inr catalog" by simp
    from Cons.IH [OF this] ReadEmpty show ?thesis
      by (simp add: read_infos_Cons)
  next
    case (ReadInfo i)
    show ?thesis
    proof (cases "signature_of i \<in> seen")
      case True
      with ReadInfo Cons.prems have "process_elements rest seen acc = Inr catalog" by simp
      from Cons.IH [OF this] ReadInfo True show ?thesis
        by (simp add: read_infos_Cons)
    next
      case False
      show ?thesis
      proof (cases "interactable i")
        case True
        with ReadInfo False Cons.prems
        have "process_elements rest (insert (signature_of i) seen) (acc @ [element_data i]) = Inr catalog"
          by simp
        from Cons.IH [OF this] ReadInfo False True show ?thesis
          by (simp add: read_infos_Cons)
      next
        case ni: False
        with ReadInfo False Cons.prems
        have "process_elements rest (insert (signature_of i) seen) acc = Inr catalog"
          by simp
        from Cons.IH [OF this] ReadInfo False ni show ?thesis
          by (simp add: read_infos_Cons)
      qed
    qed
  qed
qed

lemma dedup_from_first_by_signature:
  "dedup_from seen xs = first_by_signature (filter (\<lambda>x. signature_of x \<notin> seen) xs)"
proof (induction xs arbitrary: seen)
  case Nil
  show ?case by simp
next
  case (Cons x xs)
  show ?case
  proof (cases "signature_of x \<in> seen")
    case True
    with Cons show ?thesis by simp
  next
    case False
    have "filter (\<lambda>y. signature_of y \<noteq> signature_of x) (filter (\<lambda>y. signature_of y \<notin> seen) xs)
          = filter (\<lambda>y. signature_of y \<notin> insert (signature_of x) seen) xs"
      by (simp add: conj_commute)
    with False Cons [of "insert (signature_of x) seen"] show ?thesis by simp
  qed
qed

lemma dedup_from_empty: "dedup_from {} xs = first_by_signature xs"
  by (simp add: dedup_from_first_by_signature)








lemma catalog_spec:
  assumes "elements_to_check d = Some elems" and "get_screen_elements d = Inr catalog"
  shows "catalog = map element_data (kept_infos (read_infos elems))"
  using assms process_elements_spec [of elems "{}" "[]" catalog]
  by (simp add: get_screen_elements_def dedup_from_empty kept_infos_def)




lemma catalog_entry_selector:
  assumes "get_screen_elements d = Inr catalog" and "e \<in> set catalog"
  shows "selector e = build_selector (resource_id e) (el_text e) (description e) (class_name e)"
proof (cases "elements_to_check d")
  case None
  with assms show ?thesis by (simp add: get_screen_elements_def)
next
  case (Some elems)
  from catalog_spec [OF Some assms(1)] assms(2)
  obtain i where "e = element_data i" by auto
  then show ?thesis by (simp add: element_data_def)
qed

text \<open>
  Claim C2. For every entry of the catalog: a non-empty \<^verbatim>\<open>resource_id\<close> gives the
  selector with the one key \<^verbatim>\<open>resourceId\<close>, whatever the text, the description and the
  class name are; otherwise a non-empty text gives \<^verbatim>\<open>text\<close> and, when the class name is
  not empty, \<^verbatim>\<open>className\<close>; otherwise a non-empty description gives \<^verbatim>\<open>description\<close>
  and, when the class name is not empty, \<^verbatim>\<open>className\<close>; otherwise a non-empty class
  name gives \<^verbatim>\<open>className\<close>; otherwise the selector is empty.
\<close>

theorem selector_priority:
  assumes "get_screen_elements d = Inr catalog" and "e \<in> set catalog"
  shows "selector e =
     (if resource_id e \<noteq> [] then [(''resourceId'', resource_id e)]
      else if el_text e \<noteq> [] then
        (''text'', el_text e) #
          (if class_name e \<noteq> [] then [(''className'', class_name e)] else [])
      else if description e \<noteq> [] then
        (''description'', description e) #
          (if class_name e \<noteq> [] then [(''className'', class_name e)] else [])
      else if class_name e \<noteq> [] then [(''className'', class_name e)]
      else [])"
  using catalog_entry_selector [OF assms] by (simp add: build_selector_def)

theorem selector_priority_witness:
  "get_screen_elements form_device =
     Inr [element_data btn_next_info, element_data list_info, element_data name_field_info] \<and>
   resource_id (element_data btn_next_info) = ''btn_next'' \<and>
   el_text (element_data btn_next_info) = ''Next'' \<and>
   selector (element_data btn_next_info) = [(''resourceId'', ''btn_next'')] \<and>
   selector (element_data name_field_info) =
     [(''description'', ''Name''), (''className'', ''android.widget.EditText'')]"
proof -
  have c: "get_screen_elements form_device =
     Inr [element_data btn_next_info, element_data list_info, element_data name_field_info]"
    by (simp add: get_screen_elements_def elements_to_check_def EDITABLE_CLASS_NAMES_def
      form_device_def empty_device_def steady_def btn_next_info_def list_info_def name_field_info_def
      no_info_def signature_of_def interactable_def flag_def is_editable_of_def)
  have f: "resource_id (element_data btn_next_info) = ''btn_next'' \<and>
      el_text (element_data btn_next_info) = ''Next'' \<and>
      resource_id (element_data name_field_info) = [] \<and> el_text (element_data name_field_info) = [] \<and>
      description (element_data name_field_info) = ''Name'' \<and>
      class_name (element_data name_field_info) = ''android.widget.EditText''"
    by (simp add: element_data_def btn_next_info_def name_field_info_def no_info_def str_or_empty_def)
  from selector_priority [OF c, of "element_data btn_next_info"]
    selector_priority [OF c, of "element_data name_field_info"]
  show ?thesis
    by (simp add: c f)
qed

text \<open>
  Claim C5 does not hold of the code. The \<^verbatim>\<open>clickable\<close> query of this device finds an
  element whose \<^verbatim>\<open>info\<close> raises whenever it is read, and a button. The handler of
  line 139 reads \<^verbatim>\<open>elem.info\<close> again for its message, the read raises inside the
  handler, and the exception leaves \<^verbatim>\<open>get_screen_elements\<close>: the button is never
  processed and no catalog is returned.
\<close>

theorem inspection_failure_propagates:
  "elements_to_check vanished_device = Some [vanished, steady btn_next_info] \<and>
   get_screen_elements vanished_device = Inl InspectionError"
  by (simp add: get_screen_elements_def elements_to_check_def EDITABLE_CLASS_NAMES_def
      vanished_device_def empty_device_def vanished_def handler_completes_def)

section \<open>Reading back what \<^verbatim>\<open>repr\<close> wrote\<close>

lemma hex_val_hex_digit_all: "\<forall>d \<in> set [0..<16]. hex_val (hex_digit d) = Some d"
  by code_simp

lemma hex_val_hex_digit: "d < 16 \<Longrightarrow> hex_val (hex_digit d) = Some d"
  using hex_val_hex_digit_all by simp

lemma of_char_lt_256: "(of_char c :: nat) < 256"
proof -
  have "(of_char c :: nat) mod 256 < 256" by simp
  then show ?thesis by (simp only: of_char_mod_256)
qed

lemma is_quote_not_special:
  "quote = squote \<or> quote = dquote \<Longrightarrow>
   quote \<noteq> backslash \<and> quote \<noteq> CHR 0x0A \<and> quote \<noteq> CHR 0x0D \<and>
   backslash \<noteq> quote \<and> backslash \<noteq> CHR 0x0A \<and> backslash \<noteq> CHR 0x0D"
  by (auto simp: squote_def dquote_def backslash_def)

lemma literal_body_repr_char:
  assumes q: "quote = squote \<or> quote = dquote"
  shows "literal_body quote (repr_char quote c @ t) = cons_result [c] (literal_body quote t)"
proof -
  note qs = is_quote_not_special [OF q]
  consider (esc) "c = quote \<or> c = backslash"
    | (tab) "c \<noteq> quote" "c \<noteq> backslash" "c = CHR 0x09"
    | (lf) "c \<noteq> quote" "c \<noteq> backslash" "c = CHR 0x0A"
    | (cr) "c \<noteq> quote" "c \<noteq> backslash" "c = CHR 0x0D"
    | (hex) "c \<noteq> quote" "c \<noteq> backslash" "c \<noteq> CHR 0x09" "c \<noteq> CHR 0x0A" "c \<noteq> CHR 0x0D"
        "\<not> py_isprintable c"
    | (plain) "c \<noteq> quote" "c \<noteq> backslash" "c \<noteq> CHR 0x09" "c \<noteq> CHR 0x0A" "c \<noteq> CHR 0x0D"
        "py_isprintable c"
    by blast
  then show ?thesis
  proof cases
    case esc
    then have r: "repr_char quote c = [backslash, c]"
      by (simp add: repr_char_def)
    from esc q have s: "simple_escape c = Some c"
      by (auto simp: simple_escape_def)
    show ?thesis
      using qs by (simp add: r s)
  next
    case tab
    then have r: "repr_char quote (CHR 0x09) = [backslash, CHR ''t'']"
      by (simp add: repr_char_def)
    have s: "simple_escape (CHR ''t'') = Some (CHR 0x09)"
      by (simp add: simple_escape_def backslash_def squote_def dquote_def)
    show ?thesis
      unfolding tab(3) using qs by (simp add: r s)
  next
    case lf
    then have r: "repr_char quote (CHR 0x0A) = [backslash, CHR ''n'']"
      by (simp add: repr_char_def)
    have s: "simple_escape (CHR ''n'') = Some (CHR 0x0A)"
      by (simp add: simple_escape_def backslash_def squote_def dquote_def)
    show ?thesis
      unfolding lf(3) using qs by (simp add: r s)
  next
    case cr
    then have r: "repr_char quote (CHR 0x0D) = [backslash, CHR ''r'']"
      by (simp add: repr_char_def)
    have s: "simple_escape (CHR ''r'') = Some (CHR 0x0D)"
      by (simp add: simple_escape_def backslash_def squote_def dquote_def)
    show ?thesis
      unfolding cr(3) using qs by (simp add: r s)
  next
    case hex
    then have r: "repr_char quote c =
        [backslash, CHR ''x'', hex_digit (of_char c div 16), hex_digit (of_char c mod 16)]"
      by (simp add: repr_char_def)
    have s: "simple_escape (CHR ''x'') = None"
      by (simp add: simple_escape_def backslash_def squote_def dquote_def)
    have "(of_char c :: nat) div 16 < 16"
      using of_char_lt_256 [of c] by (simp add: less_mult_imp_div_less)
    then have h1: "hex_val (hex_digit (of_char c div 16)) = Some (of_char c div 16)"
      by (rule hex_val_hex_digit)
    have h2: "hex_val (hex_digit (of_char c mod 16)) = Some (of_char c mod 16)"
      by (rule hex_val_hex_digit) simp
    show ?thesis
      using qs by (simp add: r s h1 h2)
  next
    case plain
    then have r: "repr_char quote c = [c]"
      by (simp add: repr_char_def)
    show ?thesis
      using plain by (simp add: r)
  qed
qed

lemma literal_body_repr:
  assumes q: "quote = squote \<or> quote = dquote"
  shows "literal_body quote (concat (map (repr_char quote) s) @ quote # rest) = Some (s, rest)"
proof (induction s)
  case Nil
  show ?case by simp
next
  case (Cons c s)
  have "literal_body quote (concat (map (repr_char quote) (c # s)) @ quote # rest)
      = literal_body quote (repr_char quote c @ (concat (map (repr_char quote) s) @ quote # rest))"
    by simp
  also have "\<dots> = cons_result [c] (literal_body quote (concat (map (repr_char quote) s) @ quote # rest))"
    by (rule literal_body_repr_char [OF q])
  also have "\<dots> = Some (c # s, rest)"
    by (simp add: Cons.IH cons_result_def)
  finally show ?case .
qed

lemma repr_char_first:
  "quote = squote \<or> quote = dquote \<Longrightarrow>
   repr_char quote c \<noteq> [] \<and> hd (repr_char quote c) \<noteq> quote"
  using is_quote_not_special [of quote] by (simp add: repr_char_def)

lemma repr_quote_cases: "repr_quote s = squote \<or> repr_quote s = dquote"
  by (simp add: repr_quote_def)

lemma py_startswith_Cons2:
  "py_startswith [a, b] (c # cs) = (a = c \<and> cs \<noteq> [] \<and> b = hd cs)"
  by (cases cs) auto

lemma parse_repr:
  assumes rest: "rest \<noteq> []" "hd rest \<noteq> squote" "hd rest \<noteq> dquote"
  shows "parse_str_literal (py_repr s @ rest) = Some (s, rest)"
proof -
  let ?q = "repr_quote s"
  let ?body = "concat (map (repr_char ?q) s)"
  note q = repr_quote_cases [of s]
  have first: "\<not> py_startswith [?q, ?q] (?body @ ?q # rest)"
  proof (cases s)
    case Nil
    with rest q show ?thesis by (cases rest) auto
  next
    case (Cons c cs)
    obtain x xs where x: "repr_char ?q c = x # xs" and "x \<noteq> ?q"
      using repr_char_first [OF q, of c] by (cases "repr_char ?q c") auto
    with Cons show ?thesis by (simp add: py_startswith_Cons2)
  qed
  have "parse_str_literal (py_repr s @ rest) = literal_body ?q (?body @ ?q # rest)"
    using q first by (auto simp: parse_str_literal_def py_repr_def)
  then show ?thesis
    by (simp add: literal_body_repr [OF q])
qed

lemma hex_digit_not_newline: "d < 16 \<Longrightarrow> hex_digit d \<noteq> CHR 0x0A"
proof -
  have "\<forall>d \<in> set [0..<16]. hex_digit d \<noteq> CHR 0x0A" by code_simp
  then show "d < 16 \<Longrightarrow> hex_digit d \<noteq> CHR 0x0A" by simp
qed

lemma repr_char_no_newline:
  "quote = squote \<or> quote = dquote \<Longrightarrow> CHR 0x0A \<notin> set (repr_char quote c)"
proof -
  assume q: "quote = squote \<or> quote = dquote"
  have "(of_char c :: nat) div 16 < 16"
    using of_char_lt_256 [of c] by (simp add: less_mult_imp_div_less)
  then have h1: "hex_digit (of_char c div 16) \<noteq> CHR 0x0A" by (rule hex_digit_not_newline)
  have h2: "hex_digit (of_char c mod 16) \<noteq> CHR 0x0A" by (rule hex_digit_not_newline) simp
  show ?thesis
    using is_quote_not_special [OF q] h1 h2
    by (auto simp: repr_char_def)
qed

lemma py_repr_no_newline: "CHR 0x0A \<notin> set (py_repr s)"
  using repr_quote_cases [of s] is_quote_not_special [of "repr_quote s"]
    repr_char_no_newline [of "repr_quote s"]
  by (auto simp: py_repr_def)

section \<open>The claims about the emitted code\<close>

lemma py_strip_nonempty:
  assumes "c \<in> set s" and "\<not> P c"
  shows "py_strip P s \<noteq> []"
proof -
  let ?ys = "dropWhile P s"
  from assms have ys: "?ys \<noteq> []" by auto
  then have h: "\<not> P (hd ?ys)" by (simp add: hd_dropWhile)
  from ys have "hd ?ys \<in> set (rev ?ys)" by simp
  with h have "dropWhile P (rev ?ys) \<noteq> []" by auto
  then show ?thesis by (simp add: py_strip_def)
qed

lemma action_code_line_has_d: "CHR ''d'' \<in> set (action_code_line a)"
  by (cases a) (simp_all add: action_code_line_def)

lemma action_lines_two: "action_lines a = [action_code_line a, stability_delay]"
proof -
  have "\<not> py_isspace (CHR ''d'')" by (simp add: py_isspace_def)
  with action_code_line_has_d [of a] have "py_strip py_isspace (action_code_line a) \<noteq> []"
    by (rule py_strip_nonempty)
  then show ?thesis by (simp add: action_lines_def)
qed

lemma generate_python_function_lines:
  "generate_python_function screen_name (before @ a # after) =
     py_join [CHR 0x0A]
       ([''def '' @ screen_name @ ''(d):'',
         ''    '' @ [dquote, dquote, dquote] @ ''Automates actions on the '' @ screen_name @
           '' screen.'' @ [dquote, dquote, dquote],
         ''    print(f'' @ [squote] @ ''Executing actions for '' @ screen_name @
           '' screen...'' @ [squote] @ '')''] @
        concat (map action_lines before) @
        [action_code_line a, stability_delay] @
        concat (map action_lines after))"
  by (simp add: generate_python_function_def Let_def action_lines_two)

text \<open>
  Claim C7. The function text that \<^verbatim>\<open>generate_python_function\<close> returns has, for every
  recorded action, the statement of that action and the stability delay, as two lines
  of their own, after the three header lines and in recording order. The statement of
  a \<^verbatim>\<open>set_text\<close> action renders the text as the literal \<^verbatim>\<open>repr(text)\<close>, and the
  statement of a \<^verbatim>\<open>scroll_to_text\<close> action renders the target text in the same way.
  Read back as a Python string literal from the place where it starts in the
  statement, the literal gives exactly the original string and ends just before the
  closing parenthesis of the call, whatever quotes, backslashes or control characters
  the string holds; the literal has no line feed, so the statement stays on its line.
\<close>

theorem text_literal_round_trip:
  "action_code_line (SetText sel t d) =
     ''    d('' @ build_selector_string sel @ '').set_text('' @ py_repr t @ '')'' \<and>
   parse_str_literal (py_repr t @ '')'') = Some (t, '')'') \<and>
   action_code_line (ScrollToText sel target direction d) =
     ''    d('' @ build_selector_string sel @ '').scroll.to(text='' @ py_repr target @ '')'' \<and>
   parse_str_literal (py_repr target @ '')'') = Some (target, '')'') \<and>
   CHR 0x0A \<notin> set (py_repr t) \<and> CHR 0x0A \<notin> set (py_repr target) \<and>
   action_lines a = [action_code_line a, stability_delay] \<and>
   generate_python_function screen_name (before @ SetText sel t d # after) =
     py_join [CHR 0x0A]
       ([''def '' @ screen_name @ ''(d):'',
         ''    '' @ [dquote, dquote, dquote] @ ''Automates actions on the '' @ screen_name @
           '' screen.'' @ [dquote, dquote, dquote],
         ''    print(f'' @ [squote] @ ''Executing actions for '' @ screen_name @
           '' screen...'' @ [squote] @ '')''] @
        concat (map action_lines before) @
        [''    d('' @ build_selector_string sel @ '').set_text('' @ py_repr t @ '')'',
         stability_delay] @
        concat (map action_lines after)) \<and>
   generate_python_function screen_name (before @ ScrollToText sel target direction d # after) =
     py_join [CHR 0x0A]
       ([''def '' @ screen_name @ ''(d):'',
         ''    '' @ [dquote, dquote, dquote] @ ''Automates actions on the '' @ screen_name @
           '' screen.'' @ [dquote, dquote, dquote],
         ''    print(f'' @ [squote] @ ''Executing actions for '' @ screen_name @
           '' screen...'' @ [squote] @ '')''] @
        concat (map action_lines before) @
        [''    d('' @ build_selector_string sel @ '').scroll.to(text='' @ py_repr target @ '')'',
         stability_delay] @
        concat (map action_lines after))"
proof -
  have p: "parse_str_literal (py_repr s @ '')'') = Some (s, '')'')" for s
    by (rule parse_repr) (simp_all add: squote_def dquote_def)
  have l1: "action_code_line (SetText sel t d) =
     ''    d('' @ build_selector_string sel @ '').set_text('' @ py_repr t @ '')''"
    by (simp add: action_code_line_def)
  have l2: "action_code_line (ScrollToText sel target direction d) =
     ''    d('' @ build_selector_string sel @ '').scroll.to(text='' @ py_repr target @ '')''"
    by (simp add: action_code_line_def)
  note g1 = generate_python_function_lines [of screen_name before "SetText sel t d" after, unfolded l1]
  note g2 = generate_python_function_lines
    [of screen_name before "ScrollToText sel target direction d" after, unfolded l2]
  from l1 l2 p [of t] p [of target] py_repr_no_newline [of t] py_repr_no_newline [of target]
    action_lines_two [of a] g1 g2
  show ?thesis by (simp only: simp_thms)
qed

text \<open>
  The instance for the text \<^verbatim>\<open>it's\<close>, entered into the text field of the example
  screen, with the whole function text emitted for it, and for the target text
  \<^verbatim>\<open>6" or 6'\<close>, which has both quotes.
\<close>

theorem text_literal_round_trip_quotes:
  "action_code_line (set_text_action (element_data name_field_info) (''it'' @ [squote] @ ''s''))
     = ''    d(description='' @ [squote] @ ''Name'' @ [squote] @ '', className='' @ [squote] @
         ''android.widget.EditText'' @ [squote] @ '').set_text('' @ [dquote] @ ''it'' @ [squote] @ ''s''
         @ [dquote] @ '')'' \<and>
   parse_str_literal ([dquote] @ ''it'' @ [squote] @ ''s'' @ [dquote] @ '')'')
     = Some (''it'' @ [squote] @ ''s'', '')'') \<and>
   py_repr (''6'' @ [dquote] @ '' or 6'' @ [squote]) =
     [squote] @ ''6'' @ [dquote] @ '' or 6'' @ [backslash, squote, squote] \<and>
   parse_str_literal ([squote] @ ''6'' @ [dquote] @ '' or 6'' @ [backslash, squote, squote] @ '')'')
     = Some (''6'' @ [dquote] @ '' or 6'' @ [squote], '')'') \<and>
   generate_python_function ''profile''
       [set_text_action (element_data name_field_info) (''it'' @ [squote] @ ''s'')] =
     py_join [CHR 0x0A]
       [''def profile(d):'',
        ''    '' @ [dquote, dquote, dquote] @ ''Automates actions on the profile screen.'' @
          [dquote, dquote, dquote],
        ''    print(f'' @ [squote] @ ''Executing actions for profile screen...'' @ [squote] @ '')'',
        ''    d(description='' @ [squote] @ ''Name'' @ [squote] @ '', className='' @ [squote] @
          ''android.widget.EditText'' @ [squote] @ '').set_text('' @ [dquote] @ ''it'' @ [squote] @
          ''s'' @ [dquote] @ '')'',
        ''    time.sleep(0.5) # Stability delay'']"
proof -
  have r1: "py_repr (''it'' @ [squote] @ ''s'') = [dquote] @ ''it'' @ [squote] @ ''s'' @ [dquote]"
    by code_simp
  have r2: "py_repr (''6'' @ [dquote] @ '' or 6'' @ [squote]) =
     [squote] @ ''6'' @ [dquote] @ '' or 6'' @ [backslash, squote, squote]"
    by code_simp
  have s: "build_selector_string (selector (element_data name_field_info)) =
      ''description='' @ [squote] @ ''Name'' @ [squote] @ '', className='' @ [squote] @
         ''android.widget.EditText'' @ [squote]"
    by code_simp
  let ?el = "element_data name_field_info"
  let ?t = "''it'' @ [squote] @ ''s''"
  let ?d = "''Enter text '' @ [squote] @ ?t @ [squote] @ '' into '' @ get_element_description ?el"
  have eq: "SetText (selector ?el) ?t ?d = set_text_action ?el ?t"
    by (simp add: set_text_action_def)
  note inst = text_literal_round_trip
    [where sel = "selector ?el" and t = ?t
       and target = "''6'' @ [dquote] @ '' or 6'' @ [squote]" and d = ?d and direction = "[]"
       and screen_name = "''profile''" and before = "[]" and after = "[]"
       and a = "Click [] []", unfolded eq r1 r2 s]
  from inst have c1: "action_code_line (set_text_action ?el ?t) =
      ''    d('' @ (''description='' @ [squote] @ ''Name'' @ [squote] @ '', className='' @ [squote] @
         ''android.widget.EditText'' @ [squote]) @ '').set_text('' @
         ([dquote] @ ''it'' @ [squote] @ ''s'' @ [dquote]) @ '')''"
    by (rule conjunct1)
  from inst have c2: "parse_str_literal (([dquote] @ ''it'' @ [squote] @ ''s'' @ [dquote]) @ '')'') =
      Some (?t, '')'')"
    by blast
  from inst have c4: "parse_str_literal
      (([squote] @ ''6'' @ [dquote] @ '' or 6'' @ [backslash, squote, squote]) @ '')'') =
      Some (''6'' @ [dquote] @ '' or 6'' @ [squote], '')'')"
    by blast
  from inst have c5: "generate_python_function ''profile'' ([] @ set_text_action ?el ?t # []) =
     py_join [CHR 0x0A]
       ([''def '' @ ''profile'' @ ''(d):'',
         ''    '' @ [dquote, dquote, dquote] @ ''Automates actions on the '' @ ''profile'' @
           '' screen.'' @ [dquote, dquote, dquote],
         ''    print(f'' @ [squote] @ ''Executing actions for '' @ ''profile'' @
           '' screen...'' @ [squote] @ '')''] @
        concat (map action_lines []) @
        [''    d('' @ (''description='' @ [squote] @ ''Name'' @ [squote] @ '', className='' @
           [squote] @ ''android.widget.EditText'' @ [squote]) @ '').set_text('' @
           ([dquote] @ ''it'' @ [squote] @ ''s'' @ [dquote]) @ '')'',
         stability_delay] @
        concat (map action_lines []))"
    by blast
  from c1 c2 c4 c5 r2 show ?thesis
    by (simp add: stability_delay_def)
qed

lemma action_lines_direction:
  "action_lines (ScrollToText sel target direction d) =
   action_lines (ScrollToText sel target direction' d')"
  by (simp add: action_lines_def action_code_line_def)

text \<open>
  Claim C6, as amended. The direction recorded for a \<^verbatim>\<open>scroll_to_text\<close> action is the
  direction read from the operator's line (one of the six options, else \<^verbatim>\<open>forward\<close>),
  and it is part of the action's description. The statement emitted for the action is
  \<^verbatim>\<open>d(selector).scroll.to(text=literal)\<close>: the direction is not passed, and two lists of
  actions that differ only in the direction and the description of one
  \<^verbatim>\<open>scroll_to_text\<close> action give the same function text.
\<close>

theorem scroll_to_text_direction_described_not_emitted:
  "step elements \<lparr>state = RecordingScrollToTextDirection el target, recorded_actions = acts\<rparr> line =
     \<lparr>state = Browsing,
      recorded_actions = acts @
        [ScrollToText (selector el) target (scroll_to_text_direction line)
           (''Scroll '' @ get_element_description el @ '' '' @ scroll_to_text_direction line @
            '' until element with text '' @ [squote] @ target @ [squote] @ '' is visible'')]\<rparr> \<and>
   action_code_line (ScrollToText sel target direction d) =
     ''    d('' @ build_selector_string sel @ '').scroll.to(text='' @ py_repr target @ '')'' \<and>
   generate_python_function screen_name (before @ ScrollToText sel target direction d # after) =
     generate_python_function screen_name (before @ ScrollToText sel target direction' d' # after)"
proof -
  let ?a = "ScrollToText sel target direction d" and ?b = "ScrollToText sel target direction' d'"
  have stepped: "step elements
      \<lparr>state = RecordingScrollToTextDirection el target, recorded_actions = acts\<rparr> line =
     \<lparr>state = Browsing,
      recorded_actions = acts @
        [ScrollToText (selector el) target (scroll_to_text_direction line)
           (''Scroll '' @ get_element_description el @ '' '' @ scroll_to_text_direction line @
            '' until element with text '' @ [squote] @ target @ [squote] @ '' is visible'')]\<rparr>"
    by (simp add: step_def scroll_to_text_action_def)
  have emitted: "action_code_line ?a =
     ''    d('' @ build_selector_string sel @ '').scroll.to(text='' @ py_repr target @ '')''"
    by (simp add: action_code_line_def)
  have lines: "concat (map action_lines (before @ ?a # after)) =
      concat (map action_lines (before @ ?b # after))"
    using action_lines_direction [of sel target direction d direction' d'] by simp
  have ne: "(before @ ?a # after = []) = False" "(before @ ?b # after = []) = False"
    by simp_all
  have same: "generate_python_function screen_name (before @ ?a # after) =
     generate_python_function screen_name (before @ ?b # after)"
    unfolding generate_python_function_def ne lines ..
  from stepped emitted same show ?thesis by (simp only: simp_thms)
qed

text \<open>
  The claim as it was stated fails: on the example screen the operator records a scroll
  of the list to the text \<^verbatim>\<open>About\<close> with the direction \<^verbatim>\<open>backward\<close>; the emitted function
  is the text below, in which \<^verbatim>\<open>backward\<close> does not occur.
\<close>

theorem scroll_to_text_direction_counterexample:
  "build_actions_for_screen form_catalog [''4'', ''2'', ''About'', ''backward'', ''5''] =
     Some [scroll_to_text_action (element_data list_info) ''About'' ''backward''] \<and>
   generate_python_function ''settings''
       [scroll_to_text_action (element_data list_info) ''About'' ''backward''] =
     py_join [CHR 0x0A]
       [''def settings(d):'',
        ''    '' @ [dquote, dquote, dquote] @ ''Automates actions on the settings screen.'' @
          [dquote, dquote, dquote],
        ''    print(f'' @ [squote] @ ''Executing actions for settings screen...'' @ [squote] @ '')'',
        ''    d(resourceId='' @ [squote] @ ''list'' @ [squote] @ '').scroll.to(text='' @ [squote] @
          ''About'' @ [squote] @ '')'',
        ''    time.sleep(0.5) # Stability delay''] \<and>
   \<not> py_in ''backward''
       (generate_python_function ''settings''
          [scroll_to_text_action (element_data list_info) ''About'' ''backward''])"
  by code_simp

section \<open>The claims about the action recorder\<close>

lemma gate_set_text:
  assumes "py_int (py_strip py_isspace line) = Some choice"
    and "1 \<le> choice" and "choice \<le> int (length elements)"
    and "\<not> editable (elements ! nat (choice - 1))"
  shows "step elements \<lparr>state = SelectingElement 2, recorded_actions = acts\<rparr> line =
         \<lparr>state = Browsing, recorded_actions = acts\<rparr>"
  using assms by (simp add: step_def)

lemma gate_scroll_container:
  assumes "py_int (py_strip py_isspace line) = Some choice"
    and "1 \<le> choice" and "choice \<le> int (length elements)"
    and "\<not> scrollable (elements ! nat (choice - 1))"
  shows "step elements \<lparr>state = SelectingElement 4, recorded_actions = acts\<rparr> line =
         \<lparr>state = Browsing, recorded_actions = acts\<rparr>"
  using assms by (simp add: step_def)

lemma gate_target_text:
  assumes "py_strip py_isspace line = []"
  shows "step elements \<lparr>state = RecordingScrollToText el, recorded_actions = acts\<rparr> line =
         \<lparr>state = Browsing, recorded_actions = acts\<rparr>"
  using assms by (simp add: step_def)

lemma chosen_element_in_catalog:
  "1 \<le> choice \<Longrightarrow> choice \<le> int (length elements) \<Longrightarrow>
   elements ! nat (choice - 1) \<in> set elements"
  by (intro nth_mem) linarith

lemma step_keeps_gates:
  assumes "gates_hold elements r"
  shows "gates_hold elements (step elements r line)"
proof (cases "state r")
  case Browsing
  with assms show ?thesis
    by (auto simp: step_def gates_hold_def pending_ok_def split: option.splits)
next
  case (SelectingElement action_choice)
  show ?thesis
  proof (cases "py_int (py_strip py_isspace line)")
    case None
    with SelectingElement assms show ?thesis by (simp add: step_def)
  next
    case (Some choice)
    show ?thesis
    proof (cases "1 \<le> choice \<and> choice \<le> int (length elements)")
      case False
      with SelectingElement Some assms show ?thesis by (auto simp: step_def)
    next
      case True
      then have mem: "elements ! nat (choice - 1) \<in> set elements"
        using chosen_element_in_catalog by blast
      with SelectingElement Some True assms show ?thesis
        by (auto simp: step_def gates_hold_def pending_ok_def Let_def
            passes_gates_def click_action_def)
    qed
  qed
next
  case (RecordingText el)
  with assms show ?thesis
    by (auto simp: step_def gates_hold_def pending_ok_def passes_gates_def
        set_text_action_def list_ex_iff)
next
  case (RecordingScroll el)
  with assms show ?thesis
    by (auto simp: step_def gates_hold_def pending_ok_def passes_gates_def scroll_action_def)
next
  case (RecordingScrollToText el)
  with assms show ?thesis
    by (auto simp: step_def gates_hold_def pending_ok_def Let_def)
next
  case (RecordingScrollToTextDirection el target)
  with assms show ?thesis
    by (auto simp: step_def gates_hold_def pending_ok_def passes_gates_def
        scroll_to_text_action_def list_ex_iff)
next
  case Done
  with assms show ?thesis by (simp add: step_def)
qed

lemma foldl_step_keeps_gates:
  "gates_hold elements r \<Longrightarrow> gates_hold elements (foldl (step elements) r inputs)"
  by (induction inputs arbitrary: r) (simp_all add: step_keeps_gates)

lemma run_recorder_gates: "gates_hold elements (run_recorder elements inputs)"
  unfolding run_recorder_def
  by (rule foldl_step_keeps_gates)
     (simp add: gates_hold_def recorder_start_def pending_ok_def)

text \<open>
  Claim C4. When the operator has chosen "enter text" and picks an element that is not
  editable, the recorder goes back to \<open>Browsing\<close> and the list of recorded actions is
  what it was; so it is when the operator has chosen "scroll until text visible" and
  picks a container that is not scrollable, or gives a target text that is empty
  (once the white space around it is removed). And in every session, whatever the
  lines are: every recorded \<^verbatim>\<open>set_text\<close> action has the selector of an editable entry
  of the catalog, every recorded \<^verbatim>\<open>scroll_to_text\<close> action has a non-empty target text
  and the selector of a scrollable entry, and a prompt for a text or for the direction of
  a scroll to a text is only pending for an element that passed its gate.
\<close>

theorem validation_gates:
  "(py_int (py_strip py_isspace line) = Some choice \<and> 1 \<le> choice \<and>
    choice \<le> int (length elements) \<and> \<not> editable (elements ! nat (choice - 1)) \<longrightarrow>
      step elements \<lparr>state = SelectingElement 2, recorded_actions = acts\<rparr> line =
        \<lparr>state = Browsing, recorded_actions = acts\<rparr>) \<and>
   (py_int (py_strip py_isspace line) = Some choice \<and> 1 \<le> choice \<and>
    choice \<le> int (length elements) \<and> \<not> scrollable (elements ! nat (choice - 1)) \<longrightarrow>
      step elements \<lparr>state = SelectingElement 4, recorded_actions = acts\<rparr> line =
        \<lparr>state = Browsing, recorded_actions = acts\<rparr>) \<and>
   (py_strip py_isspace line = [] \<longrightarrow>
      step elements \<lparr>state = RecordingScrollToText el, recorded_actions = acts\<rparr> line =
        \<lparr>state = Browsing, recorded_actions = acts\<rparr>) \<and>
   list_all (passes_gates elements) (recorded_actions (run_recorder elements inputs)) \<and>
   pending_ok elements (state (run_recorder elements inputs))"
  using gate_set_text [of line choice elements acts]
    gate_scroll_container [of line choice elements acts]
    gate_target_text [of line elements el acts]
    run_recorder_gates [of elements inputs]
  unfolding gates_hold_def by blast

theorem validation_gates_witness:
  "\<not> editable (form_catalog ! nat (1 - 1)) \<and> \<not> scrollable (form_catalog ! nat (1 - 1)) \<and>
   step form_catalog \<lparr>state = SelectingElement 2, recorded_actions = []\<rparr> ''1'' =
     \<lparr>state = Browsing, recorded_actions = []\<rparr> \<and>
   step form_catalog \<lparr>state = SelectingElement 4, recorded_actions = []\<rparr> ''1'' =
     \<lparr>state = Browsing, recorded_actions = []\<rparr> \<and>
   step form_catalog
       \<lparr>state = RecordingScrollToText (element_data list_info), recorded_actions = []\<rparr> ''  '' =
     \<lparr>state = Browsing, recorded_actions = []\<rparr> \<and>
   build_actions_for_screen form_catalog [''2'', ''1'', ''4'', ''1'', ''4'', ''2'', '' '', ''5''] = Some []"
proof -
  have h1: "py_int (py_strip py_isspace ''1'') = Some 1 \<and> (1::int) \<le> 1 \<and>
      1 \<le> int (length form_catalog) \<and> \<not> editable (form_catalog ! nat (1 - 1)) \<and>
      \<not> scrollable (form_catalog ! nat (1 - 1))"
    by code_simp
  have h2: "py_strip py_isspace ''  '' = []"
    by code_simp
  have b: "build_actions_for_screen form_catalog
      [''2'', ''1'', ''4'', ''1'', ''4'', ''2'', '' '', ''5''] = Some []"
    by code_simp
  from validation_gates
    [where line = "''1''" and choice = 1 and elements = form_catalog and acts = "[]"]
    validation_gates
    [where line = "''  ''" and elements = form_catalog and acts = "[]"
       and el = "element_data list_info"]
    h1 h2 b
  show ?thesis by blast
qed

lemma step_Done_fixed: "state r = Done \<Longrightarrow> step elements r line = r"
  by (simp add: step_def)

lemma foldl_step_Done: "state r = Done \<Longrightarrow> foldl (step elements) r inputs = r"
  by (induction inputs) (simp_all add: step_Done_fixed)

lemma run_recorder_snoc:
  "run_recorder elements (inputs @ [line]) = step elements (run_recorder elements inputs) line"
  by (simp add: run_recorder_def)

lemma step_reaches_Done:
  assumes "state (step elements r line) = Done" and "state r \<noteq> Done"
  shows "state r = Browsing \<and> py_int (py_strip py_isspace line) = Some 5 \<and>
         recorded_actions (step elements r line) = recorded_actions r"
  using assms
  by (cases "state r")
     (auto simp: step_def Let_def split: option.splits if_splits)

lemma step_finish:
  "state r = Browsing \<Longrightarrow> py_int (py_strip py_isspace line) = Some 5 \<Longrightarrow>
   step elements r line = r\<lparr>state := Done\<rparr>"
  by (simp add: step_def)

lemma done_only_by_finish:
  assumes "elements \<noteq> []" and "state (run_recorder elements inputs) = Done"
  shows "\<exists>pre line post. inputs = pre @ line # post \<and>
           state (run_recorder elements pre) = Browsing \<and>
           py_int (py_strip py_isspace line) = Some 5 \<and>
           recorded_actions (run_recorder elements inputs) =
             recorded_actions (run_recorder elements pre)"
  using assms(2)
proof (induction inputs rule: rev_induct)
  case Nil
  with assms(1) show ?case
    by (simp add: run_recorder_def recorder_start_def)
next
  case (snoc line inputs)
  show ?case
  proof (cases "state (run_recorder elements inputs) = Done")
    case True
    from snoc.IH [OF True] obtain pre l post where
      split: "inputs = pre @ l # post"
      and b: "state (run_recorder elements pre) = Browsing"
      and f: "py_int (py_strip py_isspace l) = Some 5"
      and a: "recorded_actions (run_recorder elements inputs) =
              recorded_actions (run_recorder elements pre)"
      by blast
    from True have "run_recorder elements (inputs @ [line]) = run_recorder elements inputs"
      by (simp add: run_recorder_snoc step_Done_fixed)
    with a have "recorded_actions (run_recorder elements (inputs @ [line])) =
        recorded_actions (run_recorder elements pre)" by simp
    moreover from split have "inputs @ [line] = pre @ l # (post @ [line])" by simp
    ultimately show ?thesis using b f by blast
  next
    case False
    from snoc.prems have "state (step elements (run_recorder elements inputs) line) = Done"
      by (simp add: run_recorder_snoc)
    from step_reaches_Done [OF this False]
    have "state (run_recorder elements inputs) = Browsing"
      and "py_int (py_strip py_isspace line) = Some 5"
      and "recorded_actions (run_recorder elements (inputs @ [line])) =
           recorded_actions (run_recorder elements inputs)"
      by (simp_all add: run_recorder_snoc)
    moreover have "inputs @ [line] = inputs @ line # []" by simp
    ultimately show ?thesis by blast
  qed
qed

lemma empty_catalog_returns: "build_actions_for_screen [] inputs = Some []"
  by (simp add: build_actions_for_screen_def run_recorder_def recorder_start_def foldl_step_Done)

text \<open>
  Claim C9, as amended. For a catalog that is not empty, and whatever the operator
  types: when \<^verbatim>\<open>build_actions_for_screen\<close> returns a list, some line of the input was
  read in \<open>Browsing\<close> and is the choice 5 ("finish"), and the list returned is the list
  of actions recorded up to that line. In \<open>Browsing\<close> the choice 5 leads to \<open>Done\<close> and
  leaves the list as it is, and no other step of the recorder leads to \<open>Done\<close>. For the
  empty catalog the function returns the empty list at once, whatever the input.
\<close>

theorem recorder_done_only_by_finish:
  "(elements \<noteq> [] \<and> build_actions_for_screen elements inputs = Some actions \<longrightarrow>
      (\<exists>pre line post. inputs = pre @ line # post \<and>
           state (run_recorder elements pre) = Browsing \<and>
           py_int (py_strip py_isspace line) = Some 5 \<and>
           recorded_actions (run_recorder elements pre) = actions)) \<and>
   (state r = Browsing \<and> py_int (py_strip py_isspace line) = Some 5 \<longrightarrow>
      step elements r line = r\<lparr>state := Done\<rparr>) \<and>
   (state (step elements r line) = Done \<and> state r \<noteq> Done \<longrightarrow>
      state r = Browsing \<and> py_int (py_strip py_isspace line) = Some 5) \<and>
   build_actions_for_screen [] inputs = Some []"
proof -
  have "\<exists>pre line post. inputs = pre @ line # post \<and>
           state (run_recorder elements pre) = Browsing \<and>
           py_int (py_strip py_isspace line) = Some 5 \<and>
           recorded_actions (run_recorder elements pre) = actions"
    if ne: "elements \<noteq> []" and b: "build_actions_for_screen elements inputs = Some actions"
  proof -
    from b have d: "state (run_recorder elements inputs) = Done"
      and a: "recorded_actions (run_recorder elements inputs) = actions"
      by (simp_all add: build_actions_for_screen_def Let_def split: if_splits)
    from done_only_by_finish [OF ne d] obtain pre l post where
      "inputs = pre @ l # post" "state (run_recorder elements pre) = Browsing"
      "py_int (py_strip py_isspace l) = Some 5"
      "recorded_actions (run_recorder elements inputs) = recorded_actions (run_recorder elements pre)"
      by blast
    with a show ?thesis by metis
  qed
  with step_finish [of r line elements] step_reaches_Done [of elements r line]
    empty_catalog_returns [of inputs]
  show ?thesis by blast
qed

theorem recorder_done_only_by_finish_witness:
  "build_actions_for_screen form_catalog [''1'', ''1'', ''5''] =
     Some [click_action (element_data btn_next_info)] \<and>
   (\<exists>pre line post. [''1'', ''1'', ''5''] = pre @ line # post \<and>
       state (run_recorder form_catalog pre) = Browsing \<and>
       py_int (py_strip py_isspace line) = Some 5 \<and>
       recorded_actions (run_recorder form_catalog pre) = [click_action (element_data btn_next_info)]) \<and>
   step form_catalog \<lparr>state = Browsing, recorded_actions = []\<rparr> ''5'' =
     \<lparr>state = Done, recorded_actions = []\<rparr>"
proof -
  have ne: "form_catalog \<noteq> []" by (simp add: form_catalog_def)
  have b: "build_actions_for_screen form_catalog [''1'', ''1'', ''5''] =
     Some [click_action (element_data btn_next_info)]"
    by code_simp
  have f: "state \<lparr>state = Browsing, recorded_actions = []\<rparr> = Browsing \<and>
      py_int (py_strip py_isspace ''5'') = Some 5"
    by code_simp
  from recorder_done_only_by_finish
    [where elements = form_catalog and inputs = "[''1'', ''1'', ''5'']"
       and actions = "[click_action (element_data btn_next_info)]"
       and r = "\<lparr>state = Browsing, recorded_actions = []\<rparr>" and line = "''5''"] ne b f
  have "(\<exists>pre line post. [''1'', ''1'', ''5''] = pre @ line # post \<and>
       state (run_recorder form_catalog pre) = Browsing \<and>
       py_int (py_strip py_isspace line) = Some 5 \<and>
       recorded_actions (run_recorder form_catalog pre) = [click_action (element_data btn_next_info)]) \<and>
     step form_catalog \<lparr>state = Browsing, recorded_actions = []\<rparr> ''5'' =
       \<lparr>state = Browsing, recorded_actions = []\<rparr>\<lparr>state := Done\<rparr>"
    by blast
  with b show ?thesis by simp
qed

text \<open>
  The claim as it was stated, for every catalog, fails for the empty one: the recorder
  is in \<open>Done\<close> from the start and returns the empty list with no line read, so with no
  choice of "finish".
\<close>

theorem recorder_done_without_finish_counterexample:
  "recorder_start [] = \<lparr>state = Done, recorded_actions = []\<rparr> \<and>
   run_recorder [] [] = \<lparr>state = Done, recorded_actions = []\<rparr> \<and>
   build_actions_for_screen [] [] = Some []"
  by (simp add: build_actions_for_screen_def run_recorder_def recorder_start_def)

end
